theory Spec2Isabelle
  imports Complex_Main "HOL-Library.Log_Nat"
begin

section \<open>Wormhole rolling: mass intervals, state boundaries and sessions\<close>

text \<open>
  Numbers of the program are JavaScript numbers, that is IEEE 754 doubles; the model holds
  them as rationals. The masses of the ship table and the capacities are whole numbers far
  below \<open>2^53\<close>, and sums and differences of such numbers are exact in doubles, so the
  model takes them exactly. Where the result of the program depends on the rounding of an
  operation, the model rounds with \<open>fl\<close>: in the percentage of mass remaining that game mode
  compares with its thresholds (a quotient and a product), and in \<open>applyToMass_double\<close>, which
  is \<open>Action.applyToMass\<close> for masses that need not be whole numbers. The products of the
  capacities with 0.9, 1.1, 0.5 and 0.1 are taken exactly: for the eight capacities of
  \<open>WORMHOLE_MASS_TYPES\<close>, \<open>Math.round\<close> of the product in doubles is the same number.
  The products with the random draws in \<open>initializeGame\<close>, the hidden mass of game mode and
  the sum of passed mass in tracker mode are taken exactly as well; the sessions evaluated
  below come out the same in doubles.
  \<open>Math.round\<close> rounds to the nearest integer, halves upwards; \<open>Math.floor\<close> is the floor.
\<close>

definition Math_round :: "rat \<Rightarrow> rat" where
  "Math_round x = of_int \<lfloor>x + 1 / 2\<rfloor>"

definition Math_floor :: "rat \<Rightarrow> rat" where
  "Math_floor x = of_int \<lfloor>x\<rfloor>"

subsection \<open>Arithmetic of JavaScript numbers\<close>

text \<open>
  The result of an arithmetic operation on doubles is the exact result rounded to the
  nearest double, a tie going to the even significand. \<open>roundTiesToEven\<close> rounds a rational
  to an integer in that way. \<open>ilog2 x\<close> is the binary exponent of a positive \<open>x\<close>, the \<open>e\<close>
  with \<open>2^e \<le> x < 2^(e + 1)\<close>. The doubles around such an \<open>x\<close> are the multiples of
  \<open>2^(e - 52)\<close>, and of \<open>2^-1074\<close> where \<open>e\<close> is below \<open>-1022\<close> (subnormal numbers);
  \<open>fl x\<close> is the nearest of them. Overflow to \<open>Infinity\<close> is left out; in the one place
  where it could occur, the percentage of game mode, the comparison with a threshold comes
  out the same for \<open>Infinity\<close> as for the finite number the model has there.
\<close>

definition roundTiesToEven :: "rat \<Rightarrow> int" where
  "roundTiesToEven y =
     (let f = \<lfloor>y\<rfloor>; d = y - of_int f in
      if d < 1 / 2 then f else if 1 / 2 < d then f + 1 else if even f then f else f + 1)"

definition ilog2 :: "rat \<Rightarrow> int" where
  "ilog2 x =
     (case quotient_of x of
        (a, b) \<Rightarrow> (let d = bitlen a - bitlen b in if 2 powi d \<le> x then d else d - 1))"

definition fl :: "rat \<Rightarrow> rat" where
  "fl x =
     (if x = 0 then 0
      else (let q = max (ilog2 \<bar>x\<bar> - 52) (- 1074)
            in of_int (roundTiesToEven (x / 2 powi q)) * 2 powi q))"

subsection \<open>wormhole-logic.js: reference data\<close>

record ship_data =
  name :: string
  cold :: rat
  hot :: rat

definition SHIP_TYPES :: "string \<Rightarrow> ship_data option" where
  "SHIP_TYPES = map_of
     [(''rbs'', \<lparr>name = ''Rolling Battleship'', cold = 200, hot = 300\<rparr>),
      (''rhic'', \<lparr>name = ''Rolling Hictor'', cold = 1, hot = 65\<rparr>),
      (''carrier'', \<lparr>name = ''Carrier'', cold = 1250, hot = 1750\<rparr>),
      (''bs'', \<lparr>name = ''Battleship'', cold = 100, hot = 150\<rparr>),
      (''marauder'', \<lparr>name = ''Marauder'', cold = 160, hot = 210\<rparr>),
      (''cruiser'', \<lparr>name = ''Cruiser'', cold = 13, hot = 63\<rparr>)]"

definition WORMHOLE_MASS_TYPES :: "rat list" where
  "WORMHOLE_MASS_TYPES = [100, 500, 750, 1000, 2000, 3000, 3300, 5000]"

datatype ship_mode = Cold | Unknown | Hot | Custom

text \<open>
  The state of a wormhole is a string in the source. The five keys of \<open>WORMHOLE_STATES\<close>
  are constructors of their own; \<open>OtherState\<close> stands for every other value (\<open>null\<close> before
  tracking starts), which the \<open>switch\<close> statements send to their \<open>default\<close> branch.
\<close>

datatype wh_state = Fresh | Stable | Destab | Critical | Gone | OtherState

record mass_range =
  mmin :: rat
  mmax :: rat

subsection \<open>class Wormhole\<close>

record Wormhole =
  baseMass :: rat
  state :: wh_state

definition variance :: rat where
  "variance = 1 / 10"

definition getMinMass :: "Wormhole \<Rightarrow> rat" where
  "getMinMass w = Math_round (baseMass w * (1 - variance))"

definition getMaxMass :: "Wormhole \<Rightarrow> rat" where
  "getMaxMass w = Math_round (baseMass w * (1 + variance))"

definition getCurrentMassRange :: "Wormhole \<Rightarrow> mass_range" where
  "getCurrentMassRange w =
     (let minBase = getMinMass w; maxBase = getMaxMass w in
      case state w of
        Fresh \<Rightarrow> \<lparr>mmin = minBase, mmax = maxBase\<rparr>
      | Stable \<Rightarrow> \<lparr>mmin = Math_round (minBase * (1 / 2)), mmax = maxBase\<rparr>
      | Destab \<Rightarrow> \<lparr>mmin = Math_round (minBase * (1 / 10)), mmax = Math_round (maxBase * (1 / 2))\<rparr>
      | Critical \<Rightarrow> \<lparr>mmin = Math_round (minBase * 0), mmax = Math_round (maxBase * (1 / 10))\<rparr>
      | Gone \<Rightarrow> \<lparr>mmin = - 5000, mmax = 0\<rparr>
      | OtherState \<Rightarrow> \<lparr>mmin = minBase, mmax = maxBase\<rparr>)"

definition getStateBoundaries :: "Wormhole \<Rightarrow> mass_range" where
  "getStateBoundaries w =
     (let minBase = getMinMass w; maxBase = getMaxMass w in
      case state w of
        Fresh \<Rightarrow> \<lparr>mmin = Math_round (minBase * (1 / 2)), mmax = maxBase\<rparr>
      | Stable \<Rightarrow> \<lparr>mmin = Math_round (minBase * (1 / 2)), mmax = maxBase\<rparr>
      | Destab \<Rightarrow> \<lparr>mmin = Math_round (minBase * (1 / 10)), mmax = Math_round (maxBase * (1 / 2))\<rparr>
      | Critical \<Rightarrow> \<lparr>mmin = Math_round (minBase * 0), mmax = Math_round (maxBase * (1 / 10))\<rparr>
      | Gone \<Rightarrow> \<lparr>mmin = - 5000, mmax = 0\<rparr>
      | OtherState \<Rightarrow> \<lparr>mmin = Math_round (minBase * (1 / 2)), mmax = maxBase\<rparr>)"

subsection \<open>classes Ship and CustomMass, and the ship object of an event\<close>

text \<open>
  Three kinds of object are used as the ship of an action: a \<open>Ship\<close> (type key and mode), a
  \<open>CustomMass\<close>, and the object literal built by \<open>createEventShip\<close>, whose \<open>getMass\<close>
  returns the two captured figures and whose \<open>type\<close> is a ship key.
\<close>

datatype ship = Ship string ship_mode | CustomMass rat | EventShip string rat rat

fun getMass :: "ship \<Rightarrow> mass_range" where
  "getMass (Ship t m) =
     (case SHIP_TYPES t of
        None \<Rightarrow> \<lparr>mmin = 0, mmax = 0\<rparr>
      | Some shipData \<Rightarrow>
          (case m of
             Unknown \<Rightarrow> \<lparr>mmin = cold shipData, mmax = hot shipData\<rparr>
           | Cold \<Rightarrow> \<lparr>mmin = cold shipData, mmax = cold shipData\<rparr>
           | Hot \<Rightarrow> \<lparr>mmin = hot shipData, mmax = hot shipData\<rparr>
           | Custom \<Rightarrow> \<lparr>mmin = 0, mmax = 0\<rparr>))"
| "getMass (CustomMass mass) = \<lparr>mmin = mass, mmax = mass\<rparr>"
| "getMass (EventShip t c h) = \<lparr>mmin = c, mmax = h\<rparr>"

text \<open>
  \<open>ship.type\<close> as the callers test it: a \<open>CustomMass\<close> has no such field and the empty
  string is falsy, so both count as absent.
\<close>

fun ship_type :: "ship \<Rightarrow> string option" where
  "ship_type (Ship t m) = (if t = [] then None else Some t)"
| "ship_type (CustomMass mass) = None"
| "ship_type (EventShip t c h) = (if t = [] then None else Some t)"

subsection \<open>class Action\<close>

datatype direction = A | B

record Action =
  ship :: ship
  direction :: direction

text \<open>
  The three assignments that intersect an interval with the boundaries of a state; the
  source repeats them inline at each place where it clamps.
\<close>

definition clampToBoundaries :: "mass_range \<Rightarrow> mass_range \<Rightarrow> mass_range" where
  "clampToBoundaries stateBoundaries newMass =
     (let m1 = newMass\<lparr>mmin := max (mmin newMass) (mmin stateBoundaries)\<rparr>;
          m2 = m1\<lparr>mmax := min (mmax m1) (mmax stateBoundaries)\<rparr>
      in m2\<lparr>mmin := min (mmin m2) (mmax m2)\<rparr>)"

definition applyToMass :: "Action \<Rightarrow> mass_range \<Rightarrow> Wormhole option \<Rightarrow> mass_range" where
  "applyToMass a currentMass wormholeState =
     (let shipMass = getMass (ship a);
          newMass =
            (if mmin shipMass = mmax shipMass
             then (let massToSubtract = mmin shipMass in
                   \<lparr>mmin = max 0 (mmin currentMass - massToSubtract),
                    mmax = max 0 (mmax currentMass - massToSubtract)\<rparr>)
             else \<lparr>mmin = max 0 (mmin currentMass - mmax shipMass),
                   mmax = max 0 (mmax currentMass - mmin shipMass)\<rparr>)
      in case wormholeState of
           None \<Rightarrow> newMass
         | Some w \<Rightarrow> clampToBoundaries (getStateBoundaries w) newMass)"

text \<open>
  The same method with each subtraction rounded to a double, as JavaScript evaluates it.
  A custom mass is the result of \<open>parseFloat\<close> and can be any positive double; the
  difference of two doubles need not be a double, and the two bounds are rounded
  separately. For a mass that is a whole number the rounding changes nothing
  (\<open>applyToMass_double_whole\<close> below), which is why \<open>applyToMass\<close> subtracts exactly.
\<close>

definition applyToMass_double :: "Action \<Rightarrow> mass_range \<Rightarrow> Wormhole option \<Rightarrow> mass_range" where
  "applyToMass_double a currentMass wormholeState =
     (let shipMass = getMass (ship a);
          newMass =
            (if mmin shipMass = mmax shipMass
             then (let massToSubtract = mmin shipMass in
                   \<lparr>mmin = max 0 (fl (mmin currentMass - massToSubtract)),
                    mmax = max 0 (fl (mmax currentMass - massToSubtract))\<rparr>)
             else \<lparr>mmin = max 0 (fl (mmin currentMass - mmax shipMass)),
                   mmax = max 0 (fl (mmax currentMass - mmin shipMass))\<rparr>)
      in case wormholeState of
           None \<Rightarrow> newMass
         | Some w \<Rightarrow> clampToBoundaries (getStateBoundaries w) newMass)"

subsection \<open>app.js: data of a session\<close>

datatype mode = TrackerMode | GameMode

text \<open>
  A state change is the string \<open>'no-change'\<close> or the key of a state. The outcome of
  \<open>determineOutcome\<close> carries the new state and a type; its message text is a constant
  chosen together with the type and is left out.
\<close>

datatype state_change = NoChange | To wh_state

datatype outcome_type = OutCollapse | OutCritical | OutDestab | OutStable | OutSuccess

record Outcome =
  newState :: state_change
  otype :: outcome_type

text \<open>
  \<open>RANDOM_EVENTS\<close>, the method \<open>getMassImpact\<close> of its sub-actions and the \<open>size\<close>
  attribute of the ship table are used by app.js but are not defined in this snapshot of
  wormhole-logic.js. They are parameters of the model: the event table is a list \<open>evs\<close>,
  \<open>massImpact\<close> is the number the call of \<open>getMassImpact\<close> returns for that sub-action,
  and \<open>sz\<close> gives the size class of a ship key (\<open>None\<close> where the attribute is undefined).
  A direction other than \<open>'outgoing'\<close> counts as incoming, as in the source.
\<close>

datatype event_direction = Outgoing | Incoming

record event_action =
  shipType :: string
  ev_direction :: event_direction
  massImpact :: rat

record random_event =
  ev_name :: string
  displayName :: string
  probability :: rat
  ev_actions :: "event_action list"

record processed_action =
  pa_action :: Action
  pa_massImpact :: rat
  pa_outcome :: Outcome
  displayedMass :: mass_range

datatype entry_kind = ActionEntry | EventEntry

text \<open>
  One entry of \<open>committedActions\<close>. The three places that push an entry set different
  fields; a field an entry does not have is \<open>None\<close>. The timestamp is left out.
\<close>

record entry =
  kind :: entry_kind
  actions :: "Action list"
  eventData :: "random_event option"
  actualMassUsed :: "rat option"
  remainingMass_e :: "rat option"
  outcome_e :: "Outcome option"
  stateChange :: state_change
  currentState :: wh_state
  finalMass :: "mass_range option"
  passedMass :: "rat option"
  totalPassedMass :: "rat option"
  shipsOnFarSide_e :: "string \<rightharpoonup> nat"
  actionsProcessed :: "nat option"
  totalActions :: "nat option"

text \<open>
  The fields of \<open>WormholeRollingUI\<close> that the logic reads or writes, together with those of
  its \<open>GameMode\<close> object. A number that is \<open>null\<close> before the session starts is 0 here and
  a state that is \<open>null\<close> is \<open>OtherState\<close>. Rendering and other DOM work is left out.
\<close>

record session =
  committedActions :: "entry list"
  stagedActions :: "Action list"
  initialWhSize :: rat
  initialWhState :: wh_state
  initialWhRestriction :: int
  initialFarSideFleet :: "string \<rightharpoonup> nat"
  currentWhState :: wh_state
  isTracking :: bool
  shipsOnFarSide :: "string \<rightharpoonup> nat"
  currentMode :: mode
  originalWormholeMass :: rat
  initialActualMass :: rat
  remainingMass :: rat
  randomEventOccurred :: bool

text \<open>
  The values of \<open>Math.random()\<close> drawn while one player action is handled: the coin for the
  hidden mass of an unknown-mode ship, one roll for each entry of the event table (by
  position), and the pick among the valid events.
\<close>

record rnd =
  coin :: rat
  rolls :: "nat \<Rightarrow> rat"
  pick :: rat

subsection \<open>app.js: helpers of \<open>WormholeRollingUI\<close>\<close>

definition getCurrentWormhole :: "session \<Rightarrow> Wormhole" where
  "getCurrentWormhole s = \<lparr>baseMass = initialWhSize s, state = currentWhState s\<rparr>"

text \<open>
  \<open>calculateCurrentMass\<close> walks the committed entries and keeps the last \<open>finalMass\<close>
  that is present; the state it tracks along the way is not part of its result.
\<close>

fun lastFinalMass :: "mass_range \<Rightarrow> entry list \<Rightarrow> mass_range" where
  "lastFinalMass currentMass [] = currentMass"
| "lastFinalMass currentMass (e # es) =
     lastFinalMass (case finalMass e of Some m \<Rightarrow> m | None \<Rightarrow> currentMass) es"

definition calculateCurrentMass :: "session \<Rightarrow> mass_range" where
  "calculateCurrentMass s =
     lastFinalMass (getCurrentMassRange \<lparr>baseMass = initialWhSize s, state = initialWhState s\<rparr>)
       (committedActions s)"

text \<open>
  The far-side bookkeeping that \<open>GameMode.handleAddAction\<close> and \<open>commitStagingToLog\<close>
  both spell out: an outgoing ship with a type adds one to its count, an incoming one
  takes one away when the count is positive and deletes the key when it reaches 0.
\<close>

definition trackFarSide :: "direction \<Rightarrow> ship \<Rightarrow> (string \<rightharpoonup> nat) \<Rightarrow> (string \<rightharpoonup> nat)" where
  "trackFarSide d sh far =
     (case ship_type sh of
        None \<Rightarrow> far
      | Some shipKey \<Rightarrow>
          (case d of
             B \<Rightarrow> far(shipKey \<mapsto> (case far shipKey of None \<Rightarrow> 0 | Some n \<Rightarrow> n) + 1)
           | A \<Rightarrow>
               (case far shipKey of
                  None \<Rightarrow> far
                | Some n \<Rightarrow>
                    if 0 < n
                    then (if n - 1 = 0 then far(shipKey := None) else far(shipKey \<mapsto> n - 1))
                    else far)))"

subsection \<open>app.js: \<open>GameMode\<close>\<close>

text \<open>
  \<open>percentRemaining = (remainingMass / initialActualMass) * 100\<close> is evaluated in doubles:
  the quotient is rounded, and so is its product with 100. The comparisons are
  reached only when \<open>remainingMass\<close> is positive; a zero \<open>initialActualMass\<close> then makes the
  quotient \<open>Infinity\<close> in JavaScript, which is not below any threshold.
\<close>

definition percentAtMost :: "session \<Rightarrow> rat \<Rightarrow> bool" where
  "percentAtMost s k =
     (initialActualMass s \<noteq> 0 \<and> fl (fl (remainingMass s / initialActualMass s) * 100) \<le> k)"

definition targetState :: "session \<Rightarrow> wh_state" where
  "targetState s =
     (if remainingMass s \<le> 0 then Gone
      else if percentAtMost s 10 then Critical
      else if percentAtMost s 50 then Destab
      else Stable)"

definition determineOutcome :: "session \<Rightarrow> Outcome" where
  "determineOutcome s =
     (let currentState = currentWhState s; target = targetState s in
      if target = Gone then \<lparr>newState = To Gone, otype = OutCollapse\<rparr>
      else if target \<noteq> currentState then
        (case target of
           Critical \<Rightarrow> \<lparr>newState = To Critical, otype = OutCritical\<rparr>
         | Destab \<Rightarrow> \<lparr>newState = To Destab, otype = OutDestab\<rparr>
         | Stable \<Rightarrow> \<lparr>newState = To Stable, otype = OutStable\<rparr>
         | _ \<Rightarrow> \<lparr>newState = NoChange, otype = OutSuccess\<rparr>)
      else \<lparr>newState = NoChange, otype = OutSuccess\<rparr>)"

text \<open>The callers' \<open>if (outcome.newState !== 'no-change') currentWhState = outcome.newState\<close>.\<close>

definition updateState :: "Outcome \<Rightarrow> session \<Rightarrow> session" where
  "updateState outcome s =
     (case newState outcome of NoChange \<Rightarrow> s | To st \<Rightarrow> s\<lparr>currentWhState := st\<rparr>)"

text \<open>
  \<open>initializeGame\<close>, with the two draws of \<open>Math.random()\<close> as arguments: \<open>r1\<close> picks the
  original capacity, \<open>r2\<close> the fraction that remains (drawn only for the states that use it).
\<close>

definition initializeGame :: "rat \<Rightarrow> rat \<Rightarrow> session \<Rightarrow> session" where
  "initializeGame r1 r2 s =
     (let baseSize = initialWhSize s;
          minOriginal = Math_round (baseSize * (1 - variance));
          maxOriginal = Math_round (baseSize * (1 + variance));
          original = Math_floor (r1 * (maxOriginal - minOriginal + 1)) + minOriginal;
          remainingPercent =
            (case initialWhState s of
               Fresh \<Rightarrow> 1
             | Stable \<Rightarrow> 1 / 2 + r2 * (1 / 2)
             | Destab \<Rightarrow> 1 / 10 + r2 * (4 / 10)
             | Critical \<Rightarrow> r2 * (1 / 10)
             | _ \<Rightarrow> 1)
      in s\<lparr>randomEventOccurred := False,
            originalWormholeMass := original,
            remainingMass := Math_floor (original * remainingPercent),
            initialActualMass := original\<rparr>)"

subsection \<open>app.js: random events\<close>

fun triggered :: "(nat \<Rightarrow> rat) \<Rightarrow> nat \<Rightarrow> random_event list \<Rightarrow> random_event list" where
  "triggered roll i [] = []"
| "triggered roll i (event # rest) =
     (if roll i < probability event then [event] else []) @ triggered roll (Suc i) rest"

definition checkForRandomEvents :: "random_event list \<Rightarrow> (nat \<Rightarrow> rat) \<Rightarrow> session \<Rightarrow> random_event list" where
  "checkForRandomEvents evs roll s =
     (if currentMode s \<noteq> GameMode then []
      else if randomEventOccurred s then []
      else triggered roll 0 evs)"

definition createEventShip :: "event_action \<Rightarrow> ship" where
  "createEventShip eventAction =
     (case SHIP_TYPES (shipType eventAction) of
        None \<Rightarrow>
          EventShip ''cruiser'' (cold (the (SHIP_TYPES ''cruiser''))) (hot (the (SHIP_TYPES ''cruiser'')))
      | Some shipData \<Rightarrow> EventShip (shipType eventAction) (cold shipData) (hot shipData))"

text \<open>The variables of the loop in \<open>processRandomEventAsAction\<close>.\<close>

record event_loop =
  ses :: session
  processedActions :: "processed_action list"
  totalMassImpact :: rat
  currentDisplayedMass :: mass_range
  eventStateChange :: state_change

definition eventStep :: "event_action \<Rightarrow> event_loop \<Rightarrow> event_loop \<times> Outcome" where
  "eventStep eventAction st =
     (let eventShip = createEventShip eventAction;
          dir = (if ev_direction eventAction = Outgoing then B else A);
          action = \<lparr>ship = eventShip, direction = dir\<rparr>;
          impact = massImpact eventAction;
          s1 = (ses st)\<lparr>remainingMass := remainingMass (ses st) - impact\<rparr>;
          displayedResultMass =
            clampToBoundaries (getStateBoundaries (getCurrentWormhole s1))
              (applyToMass action (currentDisplayedMass st) None);
          outcome = determineOutcome s1;
          s2 = updateState outcome s1
      in (\<lparr>ses = s2,
           processedActions = processedActions st @
             [\<lparr>pa_action = action, pa_massImpact = impact, pa_outcome = outcome,
               displayedMass = displayedResultMass\<rparr>],
           totalMassImpact = totalMassImpact st + impact,
           currentDisplayedMass = displayedResultMass,
           eventStateChange =
             (if newState outcome \<noteq> NoChange \<and> eventStateChange st = NoChange
              then newState outcome else eventStateChange st)\<rparr>,
          outcome))"

fun eventLoop :: "event_action list \<Rightarrow> event_loop \<Rightarrow> event_loop" where
  "eventLoop [] st = st"
| "eventLoop (eventAction # rest) st =
     (if currentWhState (ses st) = Gone then st
      else (case eventStep eventAction st of
              (st', outcome) \<Rightarrow> if newState outcome = To Gone then st' else eventLoop rest st'))"

text \<open>
  \<open>processRandomEventAsAction\<close>: the flag is set, the sub-actions run, and one entry is
  pushed. The outcome literal the source uses when no sub-action ran carries no type; it
  is given the type of the other no-change outcomes. The completion handler that follows a
  collapse only changes the page.
\<close>

definition processRandomEventAsAction :: "random_event \<Rightarrow> session \<Rightarrow> session" where
  "processRandomEventAsAction event s =
     (let s0 = s\<lparr>randomEventOccurred := True\<rparr>;
          st = eventLoop (ev_actions event)
                 \<lparr>ses = s0, processedActions = [], totalMassImpact = 0,
                  currentDisplayedMass = calculateCurrentMass s0, eventStateChange = NoChange\<rparr>;
          s1 = ses st;
          finalOutcome =
            (if processedActions st \<noteq> [] then pa_outcome (last (processedActions st))
             else \<lparr>newState = NoChange, otype = OutSuccess\<rparr>)
      in s1\<lparr>committedActions := committedActions s1 @
           [\<lparr>kind = EventEntry,
             actions = map pa_action (processedActions st),
             eventData = Some event,
             actualMassUsed = Some (totalMassImpact st),
             remainingMass_e = Some (remainingMass s1),
             outcome_e = Some finalOutcome,
             stateChange = eventStateChange st,
             currentState = currentWhState s1,
             finalMass = Some (currentDisplayedMass st),
             passedMass = None,
             totalPassedMass = None,
             shipsOnFarSide_e = shipsOnFarSide s1,
             actionsProcessed = Some (length (processedActions st)),
             totalActions = Some (length (ev_actions event))\<rparr>]\<rparr>)"

text \<open>
  The filter of \<open>processRandomEventsAfterAction\<close>: \<open>shipData && shipData.size <= currentRestriction\<close>.
  A comparison with an undefined size is false.
\<close>

definition shipFits :: "(string \<Rightarrow> int option) \<Rightarrow> int \<Rightarrow> event_action \<Rightarrow> bool" where
  "shipFits sz currentRestriction action =
     (case SHIP_TYPES (shipType action) of
        None \<Rightarrow> False
      | Some shipData \<Rightarrow>
          (case sz (shipType action) of None \<Rightarrow> False | Some n \<Rightarrow> n \<le> currentRestriction))"

definition validEvents :: "(string \<Rightarrow> int option) \<Rightarrow> int \<Rightarrow> random_event list \<Rightarrow> random_event list" where
  "validEvents sz currentRestriction randomEvents =
     filter (\<lambda>event. list_all (shipFits sz currentRestriction) (ev_actions event)) randomEvents"

text \<open>
  \<open>Math.floor(Math.random() * validEvents.length)\<close> is an index of the list for every value
  \<open>Math.random()\<close> can return; the last branch is never taken for a pick in \<open>[0, 1)\<close>.
\<close>

definition processRandomEventsAfterAction ::
    "(string \<Rightarrow> int option) \<Rightarrow> random_event list \<Rightarrow> rnd \<Rightarrow> session \<Rightarrow> session" where
  "processRandomEventsAfterAction sz evs r s =
     (if currentMode s \<noteq> GameMode \<or> remainingMass s \<le> 0 then s
      else
        (let randomEvents = checkForRandomEvents evs (rolls r) s in
         if 0 < length randomEvents then
           (let valid = validEvents sz (initialWhRestriction s) randomEvents in
            if 0 < length valid then
              (let randomIndex = \<lfloor>pick r * of_nat (length valid)\<rfloor> in
               if 0 \<le> randomIndex \<and> nat randomIndex < length valid
               then processRandomEventAsAction (valid ! nat randomIndex) s
               else s)
            else s)
         else s))"

subsection \<open>app.js: \<open>GameMode.handleAddAction\<close>\<close>

definition handleAddAction ::
    "(string \<Rightarrow> int option) \<Rightarrow> random_event list \<Rightarrow> rnd \<Rightarrow> direction \<Rightarrow> ship \<Rightarrow> session \<Rightarrow> session" where
  "handleAddAction sz evs r dir sh s =
     (let action = \<lparr>ship = sh, direction = dir\<rparr>;
          shipMass = getMass sh;
          actualMass =
            (if mmin shipMass = mmax shipMass then mmin shipMass
             else if coin r < 1 / 2 then mmin shipMass else mmax shipMass);
          s1 = s\<lparr>remainingMass := remainingMass s - actualMass\<rparr>;
          s2 = s1\<lparr>shipsOnFarSide := trackFarSide dir sh (shipsOnFarSide s1)\<rparr>;
          outcome = determineOutcome s2;
          s3 = updateState outcome s2;
          displayedResultMass =
            (if newState outcome = To Gone then \<lparr>mmin = 0, mmax = 0\<rparr>
             else clampToBoundaries (getStateBoundaries (getCurrentWormhole s3))
                    (applyToMass action (calculateCurrentMass s3) None));
          s4 = s3\<lparr>committedActions := committedActions s3 @
                 [\<lparr>kind = ActionEntry,
                   actions = [action],
                   eventData = None,
                   actualMassUsed = Some actualMass,
                   remainingMass_e = Some (remainingMass s3),
                   outcome_e = Some outcome,
                   stateChange = newState outcome,
                   currentState = currentWhState s3,
                   finalMass = Some displayedResultMass,
                   passedMass = None,
                   totalPassedMass = None,
                   shipsOnFarSide_e = shipsOnFarSide s3,
                   actionsProcessed = None,
                   totalActions = None\<rparr>]\<rparr>
      in processRandomEventsAfterAction sz evs r s4)"

text \<open>
  A session in game mode is driven by a list of player actions, each with the direction and
  ship the player chose and the random values drawn while it is handled.
\<close>

fun play ::
    "(string \<Rightarrow> int option) \<Rightarrow> random_event list \<Rightarrow> (rnd \<times> direction \<times> ship) list \<Rightarrow> session \<Rightarrow> session" where
  "play sz evs [] s = s"
| "play sz evs ((r, dir, sh) # rest) s = play sz evs rest (handleAddAction sz evs r dir sh s)"

text \<open>
  The consistency check at the end of \<open>handleAddAction\<close> compares the hidden mass with the
  interval the player sees, which is what \<open>calculateCurrentMass\<close> returns afterwards.
\<close>

definition withinDisplayed :: "session \<Rightarrow> bool" where
  "withinDisplayed s =
     (mmin (calculateCurrentMass s) \<le> remainingMass s \<and>
      remainingMass s \<le> mmax (calculateCurrentMass s))"

definition eventCount :: "session \<Rightarrow> nat" where
  "eventCount s = length (filter (\<lambda>e. kind e = EventEntry) (committedActions s))"

subsection \<open>app.js: tracker mode\<close>

text \<open>\<open>TrackerMode.handleAddAction\<close>: the action is staged, nothing else changes.\<close>

definition stage :: "direction \<Rightarrow> ship \<Rightarrow> session \<Rightarrow> session" where
  "stage dir sh s = s\<lparr>stagedActions := stagedActions s @ [\<lparr>ship = sh, direction = dir\<rparr>]\<rparr>"

fun applyStaged :: "Action list \<Rightarrow> mass_range \<Rightarrow> mass_range" where
  "applyStaged [] currentMass = currentMass"
| "applyStaged (action # rest) currentMass = applyStaged rest (applyToMass action currentMass None)"

text \<open>The loop of \<open>commitStagingToLog\<close> over the actions of the batch.\<close>

fun commitLoop :: "Action list \<Rightarrow> rat \<times> (string \<rightharpoonup> nat) \<Rightarrow> rat \<times> (string \<rightharpoonup> nat)" where
  "commitLoop [] acc = acc"
| "commitLoop (action # rest) (entryPassedMass, far) =
     (let shipMass = getMass (ship action);
          passed =
            (if mmin shipMass = mmax shipMass then entryPassedMass + mmin shipMass
             else entryPassedMass + (mmin shipMass + mmax shipMass) / 2)
      in commitLoop rest (passed, trackFarSide (direction action) (ship action) far))"

definition commitStagingToLog :: "Action list \<Rightarrow> state_change \<Rightarrow> mass_range \<Rightarrow> session \<Rightarrow> session" where
  "commitStagingToLog acts change final s =
     (case commitLoop acts (0, shipsOnFarSide s) of
        (entryPassedMass, far) \<Rightarrow>
          (let previousTotal =
                 sum_list (map (\<lambda>e. case passedMass e of None \<Rightarrow> 0 | Some p \<Rightarrow> p) (committedActions s));
               total = previousTotal + entryPassedMass
           in s\<lparr>shipsOnFarSide := far,
                 committedActions := committedActions s @
                   [\<lparr>kind = ActionEntry,
                     actions = acts,
                     eventData = None,
                     actualMassUsed = None,
                     remainingMass_e = None,
                     outcome_e = None,
                     stateChange = change,
                     currentState = currentWhState s,
                     finalMass = Some final,
                     passedMass = Some entryPassedMass,
                     totalPassedMass = Some total,
                     shipsOnFarSide_e = far,
                     actionsProcessed = None,
                     totalActions = None\<rparr>]\<rparr>))"

definition applyStaging :: "state_change \<Rightarrow> session \<Rightarrow> session" where
  "applyStaging change s =
     (if length (stagedActions s) = 0 then s
      else
        (let appliedActions = stagedActions s;
             currentMass = applyStaged appliedActions (calculateCurrentMass s);
             finalState = (case change of NoChange \<Rightarrow> currentWhState s | To st \<Rightarrow> st);
             s1 = (case change of NoChange \<Rightarrow> s | To st \<Rightarrow> s\<lparr>currentWhState := st\<rparr>);
             stateBoundaries = getStateBoundaries \<lparr>baseMass = initialWhSize s, state = finalState\<rparr>;
             final = clampToBoundaries stateBoundaries currentMass;
             s2 = commitStagingToLog appliedActions change final s1
         in s2\<lparr>stagedActions := []\<rparr>))"

subsection \<open>app.js: start of a session\<close>

text \<open>
  The object after the constructor and \<open>init()\<close>: tracker mode, nothing tracked, and a far
  side fleet with count 0 for every key of the ship table.
\<close>

definition newUI :: session where
  "newUI =
     \<lparr>committedActions = [], stagedActions = [], initialWhSize = 0, initialWhState = OtherState,
      initialWhRestriction = 0,
      initialFarSideFleet = (\<lambda>k. case SHIP_TYPES k of None \<Rightarrow> None | Some d \<Rightarrow> Some 0),
      currentWhState = OtherState, isTracking = False, shipsOnFarSide = Map.empty,
      currentMode = TrackerMode, originalWormholeMass = 0, initialActualMass = 0,
      remainingMass = 0, randomEventOccurred = False\<rparr>"

definition resetAll :: "session \<Rightarrow> session" where
  "resetAll s =
     s\<lparr>committedActions := [], stagedActions := [], isTracking := False, initialWhSize := 0,
       initialWhState := OtherState, initialWhRestriction := 0, currentWhState := OtherState,
       shipsOnFarSide := Map.empty\<rparr>"

definition switchToMode :: "mode \<Rightarrow> session \<Rightarrow> session" where
  "switchToMode newMode s = (if isTracking s then resetAll s else s)\<lparr>currentMode := newMode\<rparr>"

text \<open>
  \<open>startTracking\<close>, with the selected size, state and restriction and the two random draws
  of \<open>initializeGame\<close> as arguments.
\<close>

definition startTracking :: "rat \<Rightarrow> wh_state \<Rightarrow> int \<Rightarrow> rat \<Rightarrow> rat \<Rightarrow> session \<Rightarrow> session" where
  "startTracking whSize whState whRestriction r1 r2 s =
     (let s1 = s\<lparr>initialWhSize := whSize, initialWhState := whState,
                  initialWhRestriction := whRestriction,
                  currentWhState := (if whState = Fresh then Stable else whState),
                  isTracking := True,
                  shipsOnFarSide := initialFarSideFleet s\<rparr>
      in if currentMode s1 = GameMode then initializeGame r1 r2 s1 else s1)"

subsection \<open>The specification's wording, for comparison with the code\<close>

text \<open>
  Automatic derivation as the specification words it: compute
  \<open>percentRemaining = currentRemaining / originalCapacity * 100\<close>, the two operations in
  the numbers of the program, and compare it with the thresholds.
\<close>

definition spec_percentRemaining :: "rat \<Rightarrow> rat \<Rightarrow> rat" where
  "spec_percentRemaining currentRemaining originalCapacity =
     fl (fl (currentRemaining / originalCapacity) * 100)"

definition spec_derivedState :: "rat \<Rightarrow> rat \<Rightarrow> wh_state" where
  "spec_derivedState currentRemaining originalCapacity =
     (if currentRemaining \<le> 0 then Gone
      else if spec_percentRemaining currentRemaining originalCapacity \<le> 10 then Critical
      else if spec_percentRemaining currentRemaining originalCapacity \<le> 50 then Destab
      else Stable)"

text \<open>
  The commit of a batch as the specification words it: every pending action applied in
  order without clamping, the result intersected once with the boundaries of the declared
  state and its lower bound forced below the upper one; the passed mass of an action is
  its exact mass if known and the midpoint of cold and hot otherwise.
\<close>

definition spec_intersect :: "mass_range \<Rightarrow> mass_range \<Rightarrow> mass_range" where
  "spec_intersect bounds m =
     (let hi = min (mmax m) (mmax bounds); lo = max (mmin m) (mmin bounds)
      in \<lparr>mmin = min lo hi, mmax = hi\<rparr>)"

definition spec_commitInterval :: "session \<Rightarrow> wh_state \<Rightarrow> mass_range" where
  "spec_commitInterval s declared =
     spec_intersect (getStateBoundaries \<lparr>baseMass = initialWhSize s, state = declared\<rparr>)
       (foldl (\<lambda>m a. applyToMass a m None) (calculateCurrentMass s) (stagedActions s))"

definition spec_passedMass :: "Action \<Rightarrow> rat" where
  "spec_passedMass a =
     (if mmin (getMass (ship a)) = mmax (getMass (ship a)) then mmin (getMass (ship a))
      else (mmin (getMass (ship a)) + mmax (getMass (ship a))) / 2)"

subsection \<open>Example inputs\<close>

text \<open>
  Inputs for the concrete instances further down. The size classes are the ones the
  repository's tests expect of the ship table. The two events are examples of entries of
  the event table (app.js knows events of these names as two cruiser jumps and two carrier
  jumps); their probability is the 0.5 percent the development notes give.
\<close>

definition example_sizes :: "string \<Rightarrow> int option" where
  "example_sizes = map_of
     [(''dictor'', 1), (''covops'', 1), (''cruiser'', 2), (''rhic'', 2),
      (''bs'', 3), (''rbs'', 3), (''marauder'', 3), (''carrier'', 5)]"

definition cruiser_event :: random_event where
  "cruiser_event =
     \<lparr>ev_name = ''neutral_cruiser_jump'', displayName = ''Neutral cruiser'', probability = 1 / 200,
      ev_actions =
        [\<lparr>shipType = ''cruiser'', ev_direction = Outgoing, massImpact = 40\<rparr>,
         \<lparr>shipType = ''cruiser'', ev_direction = Incoming, massImpact = 40\<rparr>]\<rparr>"

definition carrier_event :: random_event where
  "carrier_event =
     \<lparr>ev_name = ''neutral_carrier_jump'', displayName = ''Neutral carrier'', probability = 1 / 200,
      ev_actions =
        [\<lparr>shipType = ''carrier'', ev_direction = Outgoing, massImpact = 1500\<rparr>,
         \<lparr>shipType = ''carrier'', ev_direction = Incoming, massImpact = 1500\<rparr>]\<rparr>"

definition example_events :: "random_event list" where
  "example_events = [cruiser_event, carrier_event]"

definition game_3000 :: session where
  "game_3000 = startTracking 3000 Fresh 3 0 0 (switchToMode GameMode newUI)"

text \<open>The invariant behind the cap on events: at most one event entry, and none before the flag is set.\<close>

definition atMostOne :: "session \<Rightarrow> bool" where
  "atMostOne s = (eventCount s \<le> 1 \<and> (randomEventOccurred s \<or> eventCount s = 0))"

section \<open>Rounding to doubles\<close>

text \<open>
  \<open>ilog2\<close> is the binary exponent, so \<open>fl\<close> rounds to 53 significant bits. A number with
  at most 53 significant bits (and a denominator that a double can have) is a double,
  \<open>fl\<close> leaves it as it is, and every double of magnitude below \<open>2^53\<close> has that form.
\<close>

lemma roundTiesToEven_of_int [simp]: "roundTiesToEven (of_int n) = n"
  by (simp add: roundTiesToEven_def)

lemma roundTiesToEven_nonneg: "0 \<le> y \<Longrightarrow> 0 \<le> roundTiesToEven y"
  by (simp add: roundTiesToEven_def Let_def)

lemma roundTiesToEven_nonpos: "y \<le> 0 \<Longrightarrow> roundTiesToEven y \<le> 0"
proof -
  assume y: "y \<le> 0"
  have f: "\<lfloor>y\<rfloor> \<le> 0" using y by (simp add: floor_le_zero)
  have "\<lfloor>y\<rfloor> + 1 \<le> 0" if "y \<noteq> of_int \<lfloor>y\<rfloor>"
  proof -
    have "y < 0" using that y by (cases "y = 0") auto
    then have "\<lfloor>y\<rfloor> < 0" by (simp add: floor_less_zero)
    then have "\<lfloor>y\<rfloor> \<noteq> 0" by linarith
    then show ?thesis using f by linarith
  qed
  then show ?thesis
    using f by (auto simp: roundTiesToEven_def Let_def)
qed

lemma bitlen_powi:
  assumes "0 < a"
  shows "(2::rat) powi (bitlen a - 1) \<le> of_int a" and "of_int a < (2::rat) powi (bitlen a)"
proof -
  have b: "2 ^ nat (bitlen a - 1) \<le> a" "a < 2 ^ nat (bitlen a)"
    using bitlen_bounds [OF assms] by simp_all
  have pos: "1 \<le> bitlen a"
    using assms bitlen_eq_zero_iff [of a] bitlen_nonneg [of a] by linarith
  have "(2::rat) powi (bitlen a - 1) = 2 ^ nat (bitlen a - 1)"
    using pos by (simp add: power_int_def)
  also have "\<dots> = of_int (2 ^ nat (bitlen a - 1))" by simp
  also have "\<dots> \<le> of_int a" using b(1) by (simp only: of_int_le_iff)
  finally show "(2::rat) powi (bitlen a - 1) \<le> of_int a" .
  have "(of_int a :: rat) < of_int (2 ^ nat (bitlen a))" using b(2) by (simp only: of_int_less_iff)
  also have "\<dots> = 2 ^ nat (bitlen a)" by simp
  also have "\<dots> = (2::rat) powi (bitlen a)"
    using pos by (simp add: power_int_def)
  finally show "of_int a < (2::rat) powi (bitlen a)" .
qed

lemma ilog2_bounds:
  assumes "0 < x"
  shows "2 powi (ilog2 x) \<le> x" and "x < 2 powi (ilog2 x + 1)"
proof -
  obtain a b where q: "quotient_of x = (a, b)" by (cases "quotient_of x")
  have b: "0 < b" using quotient_of_denom_pos [OF q] .
  have x: "x = of_int a / of_int b" using quotient_of_div [OF q] .
  have a: "0 < a" using assms b x by (simp add: zero_less_divide_iff)
  define d where "d = bitlen a - bitlen b"
  note A = bitlen_powi [OF a] and B = bitlen_powi [OF b]
  have Bp: "(0::rat) < of_int b" using b by simp
  have P: "(0::rat) < 2 powi n" for n by (simp add: zero_less_power_int)
  have up: "x < 2 powi (d + 1)"
  proof -
    have "x < 2 powi (bitlen a) / of_int b"
      unfolding x using A(2) Bp by (simp add: divide_strict_right_mono)
    also have "\<dots> \<le> 2 powi (bitlen a) / 2 powi (bitlen b - 1)"
      by (rule frac_le [OF less_imp_le [OF P] order_refl P B(1)])
    also have "\<dots> = 2 powi (bitlen a - (bitlen b - 1))"
      by (simp add: power_int_diff)
    also have "bitlen a - (bitlen b - 1) = d + 1"
      by (simp add: d_def)
    finally show ?thesis .
  qed
  have lo: "2 powi (d - 1) < x"
  proof -
    have "d - 1 = bitlen a - 1 - bitlen b"
      by (simp add: d_def)
    then have "(2::rat) powi (d - 1) = 2 powi (bitlen a - 1) / 2 powi (bitlen b)"
      by (simp add: power_int_diff)
    also have "\<dots> < 2 powi (bitlen a - 1) / of_int b"
      by (rule frac_less2 [OF P order_refl Bp B(2)])
    also have "\<dots> \<le> x"
      unfolding x using A(1) Bp by (simp add: divide_right_mono)
    finally show ?thesis .
  qed
  have il: "ilog2 x = (if 2 powi d \<le> x then d else d - 1)"
    by (simp add: ilog2_def q d_def Let_def)
  show "2 powi (ilog2 x) \<le> x"
    using lo by (simp add: il)
  show "x < 2 powi (ilog2 x + 1)"
    using up by (auto simp add: il not_le)
qed

lemma powi_pos: "(0::rat) < 2 powi n"
  by simp

lemma powi_less_exp:
  assumes "(2::rat) powi a \<le> x" and "x < 2 powi b"
  shows "a < b"
proof (rule ccontr)
  assume "\<not> a < b"
  then have "(2::rat) powi b \<le> 2 powi a"
    by (intro power_int_increasing) simp_all
  then show False using assms by linarith
qed

lemma fl_exact:
  assumes k: "k \<le> 1074" and N: "\<bar>N\<bar> < 2 ^ 53"
  shows "fl (of_int N / 2 ^ k) = of_int N / 2 ^ k"
proof (cases "N = 0")
  case True
  then show ?thesis by (simp add: fl_def)
next
  case False
  define y :: rat where "y = of_int N / 2 ^ k"
  have y0: "y \<noteq> 0" using False by (simp add: y_def)
  define e where "e = ilog2 \<bar>y\<bar>"
  define q where "q = max (e - 52) (- 1074)"
  have ypow: "y = of_int N * 2 powi (- int k)"
    by (simp add: y_def power_int_minus power_int_of_nat field_simps)
  have "\<bar>y\<bar> = of_int \<bar>N\<bar> * 2 powi (- int k)"
    by (simp add: ypow abs_mult)
  also have "\<dots> < 2 ^ 53 * 2 powi (- int k)"
  proof -
    have "(of_int \<bar>N\<bar> :: rat) < of_int (2 ^ 53)"
      using N by (simp only: of_int_less_iff)
    then show ?thesis
      using powi_pos [of "- int k"] by (simp add: mult_strict_right_mono)
  qed
  also have "\<dots> = 2 powi (53 - int k)"
    by (simp add: power_int_diff power_int_minus field_simps)
  finally have up: "\<bar>y\<bar> < 2 powi (53 - int k)" .
  have lo: "2 powi e \<le> \<bar>y\<bar>"
    unfolding e_def using y0 by (intro ilog2_bounds(1)) simp
  have "e < 53 - int k"
    using powi_less_exp [OF lo up] .
  then have qk: "q \<le> - int k"
    using k by (simp add: q_def)
  define j where "j = nat (- int k - q)"
  have j: "int j = - int k - q" using qk by (simp add: j_def)
  have "y / 2 powi q = of_int N * (2 powi (- int k) / 2 powi q)"
    by (simp add: ypow)
  also have "2 powi (- int k) / 2 powi q = (2::rat) powi (- int k - q)"
    by (simp add: power_int_diff)
  also have "\<dots> = 2 ^ j"
    unfolding j [symmetric] by (simp add: power_int_of_nat)
  finally have scaled: "y / 2 powi q = of_int (N * 2 ^ j)"
    by simp
  have "fl y = of_int (roundTiesToEven (y / 2 powi q)) * 2 powi q"
    using y0 by (simp add: fl_def Let_def q_def e_def)
  also have "\<dots> = of_int (N * 2 ^ j) * 2 powi q"
    by (simp only: scaled roundTiesToEven_of_int)
  also have "\<dots> = y / 2 powi q * 2 powi q"
    unfolding scaled ..
  also have "\<dots> = y"
    using powi_pos [of q] by simp
  finally show ?thesis by (simp add: y_def)
qed

lemma fl_fixed_form:
  assumes fx: "fl x = x" and bound: "\<bar>x\<bar> < 2 ^ 53"
  shows "\<exists>k N. k \<le> (1074::nat) \<and> \<bar>N\<bar> < 2 ^ 53 \<and> x = of_int N / 2 ^ k"
proof (cases "x = 0")
  case True
  have "(0::nat) \<le> 1074 \<and> \<bar>0::int\<bar> < 2 ^ 53 \<and> x = of_int 0 / 2 ^ (0::nat)"
    using True by simp
  then show ?thesis by blast
next
  case False
  define e where "e = ilog2 \<bar>x\<bar>"
  define q where "q = max (e - 52) (- 1074)"
  define R where "R = roundTiesToEven (x / 2 powi q)"
  have xR: "x = of_int R * 2 powi q"
    using fx False by (simp add: fl_def Let_def q_def e_def R_def)
  have lo: "2 powi e \<le> \<bar>x\<bar>" and up: "\<bar>x\<bar> < 2 powi (e + 1)"
    unfolding e_def using False by (intro ilog2_bounds; simp)+
  have "\<bar>x\<bar> < 2 powi 53"
    using bound by (simp add: power_int_def)
  then have "e < 53"
    using powi_less_exp [OF lo] by simp
  then have q0: "q \<le> 0" and q1: "- 1074 \<le> q" and q2: "e - 52 \<le> q"
    by (simp_all add: q_def)
  define k where "k = nat (- q)"
  have k: "int k = - q" "k \<le> 1074"
    using q0 q1 by (simp_all add: k_def)
  have pk: "(2::rat) powi q = 1 / 2 ^ k"
  proof -
    have "(2::rat) powi q = 2 powi (- int k)" using k by simp
    also have "\<dots> = 1 / 2 ^ k"
      by (simp add: power_int_minus power_int_of_nat field_simps)
    finally show ?thesis .
  qed
  have "of_int \<bar>R\<bar> * (2::rat) powi q = \<bar>x\<bar>"
    using powi_pos [of q] by (simp add: xR abs_mult)
  also have "\<dots> < 2 powi (e + 1)" by (rule up)
  also have "\<dots> = 2 powi (e - 52) * 2 ^ 53"
  proof -
    have "(2::rat) powi ((e - 52) + 53) = 2 powi (e - 52) * 2 powi 53"
      by (rule power_int_add) simp
    moreover have "(e - 52) + 53 = e + 1" by simp
    moreover have "(2::rat) powi 53 = 2 ^ 53" by (simp add: power_int_def)
    ultimately show ?thesis by (simp only:)
  qed
  also have "\<dots> \<le> 2 powi q * 2 ^ 53"
    using q2 by (intro mult_right_mono power_int_increasing) simp_all
  finally have "of_int \<bar>R\<bar> * (2::rat) powi q < 2 ^ 53 * 2 powi q"
    by (simp add: mult.commute)
  then have "(of_int \<bar>R\<bar> :: rat) < 2 ^ 53"
    using powi_pos [of q] by (simp only: mult_less_cancel_right_pos)
  then have "(of_int \<bar>R\<bar> :: rat) < of_int (2 ^ 53)" by simp
  then have R: "\<bar>R\<bar> < 2 ^ 53" by (simp only: of_int_less_iff)
  have "x = of_int R / 2 ^ k"
    by (simp add: xR pk)
  then show ?thesis
    using k(2) R by blast
qed

lemma fl_nonpos: "x \<le> 0 \<Longrightarrow> fl x \<le> 0"
proof -
  assume x: "x \<le> 0"
  define q where "q = max (ilog2 \<bar>x\<bar> - 52) (- 1074)"
  have "x / 2 powi q \<le> 0"
    using x powi_pos [of q] by (simp add: divide_le_0_iff less_imp_le)
  then have "roundTiesToEven (x / 2 powi q) \<le> 0"
    by (rule roundTiesToEven_nonpos)
  then have "(of_int (roundTiesToEven (x / 2 powi q)) :: rat) \<le> 0" by simp
  then have "(of_int (roundTiesToEven (x / 2 powi q)) :: rat) * 2 powi q \<le> 0"
    using powi_pos [of q] by (simp add: mult_le_0_iff less_imp_le)
  then show ?thesis
    by (simp add: fl_def Let_def q_def)
qed

lemma fl_sub_exact:
  assumes fx: "fl x = x" and bound: "x < 2 ^ 53" and n0: "0 \<le> n" and nx: "of_int n \<le> x"
  shows "fl (x - of_int n) = x - of_int n"
proof -
  have x0: "0 \<le> x" using n0 nx by (meson of_int_0_le_iff order_trans)
  then have "\<bar>x\<bar> < 2 ^ 53" using bound by simp
  then obtain k N where k: "k \<le> (1074::nat)" and N: "\<bar>N\<bar> < 2 ^ 53" and x: "x = of_int N / 2 ^ k"
    using fl_fixed_form [OF fx] by blast
  have "0 \<le> (of_int N :: rat) / 2 ^ k"
    using x0 by (simp only: x)
  then have "0 \<le> (of_int N :: rat)"
    by (simp add: zero_le_divide_iff power_le_zero_eq)
  then have N0: "0 \<le> N" by simp
  have "of_int n * 2 ^ k \<le> (of_int N :: rat)"
    using nx by (simp add: x pos_le_divide_eq)
  then have "(of_int (n * 2 ^ k) :: rat) \<le> of_int N" by simp
  then have le: "n * 2 ^ k \<le> N" by (simp only: of_int_le_iff)
  have ge: "0 \<le> n * 2 ^ k" using n0 by simp
  have M: "\<bar>N - n * 2 ^ k\<bar> < 2 ^ 53"
    using N N0 le ge by linarith
  have "x - of_int n = of_int (N - n * 2 ^ k) / 2 ^ k"
    by (simp add: x diff_divide_distrib)
  then show ?thesis
    using fl_exact [OF k M] by simp
qed

lemma clamp_sub_exact:
  assumes "fl x = x" and "x < 2 ^ 53" and "0 \<le> n"
  shows "max 0 (fl (x - of_int n)) = max 0 (x - of_int n)"
proof (cases "of_int n \<le> x")
  case True
  then show ?thesis using fl_sub_exact [OF assms] by simp
next
  case False
  then have "x - of_int n \<le> 0" by simp
  then show ?thesis using fl_nonpos [of "x - of_int n"] by (simp add: max_def)
qed

text \<open>The value of \<open>fl\<close> is within half the spacing of the number rounded.\<close>

lemma roundTiesToEven_error: "\<bar>of_int (roundTiesToEven y) - y\<bar> \<le> 1 / 2"
proof -
  define d where "d = y - of_int \<lfloor>y\<rfloor>"
  have d: "0 \<le> d" "d < 1"
    unfolding d_def by linarith+
  have r: "roundTiesToEven y =
      (if d < 1 / 2 then \<lfloor>y\<rfloor> else if 1 / 2 < d then \<lfloor>y\<rfloor> + 1
       else if even \<lfloor>y\<rfloor> then \<lfloor>y\<rfloor> else \<lfloor>y\<rfloor> + 1)"
    by (simp add: roundTiesToEven_def Let_def d_def)
  have down: "\<bar>of_int \<lfloor>y\<rfloor> - y\<bar> = d"
    using d by (simp add: d_def)
  have up: "\<bar>of_int (\<lfloor>y\<rfloor> + 1) - y\<bar> = 1 - d"
    using d by (simp add: d_def)
  consider "d < 1 / 2" | "1 / 2 < d" | "d = 1 / 2"
    by linarith
  then show ?thesis
  proof cases
    case 1
    then show ?thesis unfolding r using down by simp
  next
    case 2
    then show ?thesis unfolding r using up by simp
  next
    case 3
    then show ?thesis unfolding r using down up by (cases "even \<lfloor>y\<rfloor>") simp_all
  qed
qed

lemma fl_error:
  "\<bar>fl x - x\<bar> \<le> 2 powi (max (ilog2 \<bar>x\<bar> - 52) (- 1074)) / 2"
proof (cases "x = 0")
  case True
  then show ?thesis by (simp add: fl_def)
next
  case False
  define q where "q = max (ilog2 \<bar>x\<bar> - 52) (- 1074)"
  define y where "y = x / 2 powi q"
  have x: "x = y * 2 powi q"
    by (simp add: y_def)
  have "fl x - x = (of_int (roundTiesToEven y) - y) * 2 powi q"
    using False by (simp add: fl_def Let_def q_def [symmetric] y_def [symmetric] x [symmetric] algebra_simps)
  then have "\<bar>fl x - x\<bar> = \<bar>of_int (roundTiesToEven y) - y\<bar> * 2 powi q"
    by (simp add: abs_mult)
  also have "\<dots> \<le> 1 / 2 * 2 powi q"
    by (intro mult_right_mono roundTiesToEven_error) simp
  finally show ?thesis
    by (simp add: q_def)
qed

text \<open>
  Taking a whole number that is not negative from a double below \<open>2^53\<close> is exact
  wherever the result is not negative, and the clamp at 0 hides the rounding elsewhere.
  For such masses the method with rounding and the one without are the same function.
\<close>

lemma applyToMass_double_whole:
  assumes "getMass (ship a) = \<lparr>mmin = of_int c, mmax = of_int h\<rparr>" and "0 \<le> c" and "0 \<le> h"
    and "fl (mmin cur) = mmin cur" and "fl (mmax cur) = mmax cur"
    and "mmin cur < 2 ^ 53" and "mmax cur < 2 ^ 53"
  shows "applyToMass_double a cur w = applyToMass a cur w"
proof -
  have sub: "max 0 (fl (mmin cur - of_int c)) = max 0 (mmin cur - of_int c)"
    "max 0 (fl (mmin cur - of_int h)) = max 0 (mmin cur - of_int h)"
    "max 0 (fl (mmax cur - of_int c)) = max 0 (mmax cur - of_int c)"
    "max 0 (fl (mmax cur - of_int h)) = max 0 (mmax cur - of_int h)"
    using assms(2-7) by (simp_all only: clamp_sub_exact)
  show ?thesis
    by (cases w) (simp_all add: applyToMass_double_def applyToMass_def Let_def assms(1) sub)
qed

text \<open>
  Values of \<open>fl\<close>: 0.1 and 0.2 are not doubles, the whole numbers and quarters used below are.
  With the double nearest to 0.2 taken from 450 and from 550 the two differences are
  rounded to different multiples of \<open>2^-44\<close>.
\<close>

lemma fl_values:
  "fl (1 / 10) = 3602879701896397 / 36028797018963968"
  "fl (1 / 5) = 3602879701896397 / 18014398509481984"
  "fl 10 = 10"
  "fl 200 = 200"
  "fl 2000 = 2000"
  "fl 3000 = 3000"
  "fl (1349 / 4) = 1349 / 4"
  "fl (450 - fl (1 / 5)) = 7912965282778317 / 17592186044416"
  "fl (550 - fl (1 / 5)) = 2418045971804979 / 4398046511104"
  by code_simp+

section \<open>Properties of the interval arithmetic and the boundaries\<close>

text \<open>Floors of numeral fractions evaluate by integer division.\<close>

lemma floor_numeral_div_rat [simp]: "\<lfloor>numeral a / numeral b :: rat\<rfloor> = numeral a div numeral b"
  by (metis floor_divide_of_int_eq of_int_numeral)

lemma floor_one_div_rat [simp]: "\<lfloor>1 / numeral b :: rat\<rfloor> = 1 div numeral b"
  by (metis floor_divide_of_int_eq of_int_1 of_int_numeral)

lemma Math_round_0 [simp]: "Math_round 0 = 0"
  by (simp add: Math_round_def)

lemma Math_round_mono: "x \<le> y \<Longrightarrow> Math_round x \<le> Math_round y"
  by (simp add: Math_round_def floor_mono)

lemma Math_round_nonneg: "0 \<le> x \<Longrightarrow> 0 \<le> Math_round x"
  using Math_round_mono [of 0 x] by simp

lemma Math_round_of_int: "Math_round (of_int n) = of_int n"
  by (simp add: Math_round_def floor_eq_iff)

lemma Math_round_idem: "Math_round (Math_round x) = Math_round x"
  unfolding Math_round_def [of x] by (rule Math_round_of_int)

lemma base_bounds:
  assumes "0 \<le> b"
  shows "0 \<le> getMinMass \<lparr>baseMass = b, state = s\<rparr>"
    and "getMinMass \<lparr>baseMass = b, state = s\<rparr> \<le> getMaxMass \<lparr>baseMass = b, state = s\<rparr>"
proof -
  show "0 \<le> getMinMass \<lparr>baseMass = b, state = s\<rparr>"
    using assms by (simp add: getMinMass_def variance_def Math_round_nonneg)
  have "b * (1 - variance) \<le> b * (1 + variance)"
    using assms by (simp add: variance_def mult_left_mono)
  then show "getMinMass \<lparr>baseMass = b, state = s\<rparr> \<le> getMaxMass \<lparr>baseMass = b, state = s\<rparr>"
    by (simp add: getMinMass_def getMaxMass_def Math_round_mono)
qed

text \<open>The boundaries of every state are ordered, for any capacity that is not negative.\<close>

lemma stateBoundaries_ordered:
  assumes "0 \<le> b"
  shows "mmin (getStateBoundaries \<lparr>baseMass = b, state = s\<rparr>)
           \<le> mmax (getStateBoundaries \<lparr>baseMass = b, state = s\<rparr>)"
proof -
  define lo where "lo = getMinMass \<lparr>baseMass = b, state = s\<rparr>"
  define hi where "hi = getMaxMass \<lparr>baseMass = b, state = s\<rparr>"
  have lo0: "0 \<le> lo" and lohi: "lo \<le> hi"
    using base_bounds [OF assms, of s] by (simp_all add: lo_def hi_def)
  have "Math_round (lo * (1 / 2)) \<le> Math_round lo"
    using lo0 by (intro Math_round_mono) simp
  also have "Math_round lo = lo"
    by (simp add: lo_def getMinMass_def Math_round_idem)
  finally have half: "Math_round (lo * (1 / 2)) \<le> hi"
    using lohi by simp
  have tenth: "Math_round (lo * (1 / 10)) \<le> Math_round (hi * (1 / 2))"
    using lo0 lohi by (intro Math_round_mono) simp
  have crit: "0 \<le> Math_round (hi * (1 / 10))"
    using lo0 lohi by (intro Math_round_nonneg) simp
  show ?thesis
    using half tenth crit
    by (cases s) (simp_all add: getStateBoundaries_def Let_def lo_def hi_def)
qed

text \<open>
  Claim C8. For every base capacity of \<open>WORMHOLE_MASS_TYPES\<close> and every state,
  \<open>getStateBoundaries\<close> returns an interval with min \<open>\<le>\<close> max; for \<open>critical\<close> the min is
  exactly 0 whatever the capacity; for \<open>gone\<close> the interval is exactly \<open>{min: -5000, max: 0}\<close>.
\<close>

theorem getStateBoundaries_claim:
  "b \<in> set WORMHOLE_MASS_TYPES \<Longrightarrow>
     mmin (getStateBoundaries \<lparr>baseMass = b, state = s\<rparr>)
       \<le> mmax (getStateBoundaries \<lparr>baseMass = b, state = s\<rparr>)
   \<and> mmin (getStateBoundaries \<lparr>baseMass = b, state = Critical\<rparr>) = 0
   \<and> getStateBoundaries \<lparr>baseMass = b, state = Gone\<rparr> = \<lparr>mmin = - 5000, mmax = 0\<rparr>"
  using stateBoundaries_ordered [of b s]
  by (auto simp add: getStateBoundaries_def WORMHOLE_MASS_TYPES_def)

theorem getStateBoundaries_claim_witness:
  "(750 :: rat) \<in> set WORMHOLE_MASS_TYPES
   \<and> mmin (getStateBoundaries \<lparr>baseMass = 750, state = Destab\<rparr>)
       \<le> mmax (getStateBoundaries \<lparr>baseMass = 750, state = Destab\<rparr>)
   \<and> mmin (getStateBoundaries \<lparr>baseMass = 750, state = Critical\<rparr>) = 0
   \<and> getStateBoundaries \<lparr>baseMass = 750, state = Gone\<rparr> = \<lparr>mmin = - 5000, mmax = 0\<rparr>"
proof -
  have h: "(750 :: rat) \<in> set WORMHOLE_MASS_TYPES"
    by (simp add: WORMHOLE_MASS_TYPES_def)
  show ?thesis
    using h getStateBoundaries_claim [OF h, of Destab] by simp
qed

text \<open>
  Claim C9. The fresh 3000 Gg display range is \<open>{min: 2700, max: 3300}\<close>; an unknown-mode
  battleship (cold 100, hot 150) applied without a boundary state gives
  \<open>{min: 2550, max: 3200}\<close>, and a hot battleship (150) applied to that gives
  \<open>{min: 2400, max: 3050}\<close>.
\<close>

theorem battleship_scenario:
  "getCurrentMassRange \<lparr>baseMass = 3000, state = Fresh\<rparr> = \<lparr>mmin = 2700, mmax = 3300\<rparr>
   \<and> getMass (Ship ''bs'' Unknown) = \<lparr>mmin = 100, mmax = 150\<rparr>
   \<and> applyToMass \<lparr>ship = Ship ''bs'' Unknown, direction = A\<rparr>
        (getCurrentMassRange \<lparr>baseMass = 3000, state = Fresh\<rparr>) None = \<lparr>mmin = 2550, mmax = 3200\<rparr>
   \<and> getMass (Ship ''bs'' Hot) = \<lparr>mmin = 150, mmax = 150\<rparr>
   \<and> applyToMass \<lparr>ship = Ship ''bs'' Hot, direction = A\<rparr>
        (applyToMass \<lparr>ship = Ship ''bs'' Unknown, direction = A\<rparr>
           (getCurrentMassRange \<lparr>baseMass = 3000, state = Fresh\<rparr>) None) None
       = \<lparr>mmin = 2400, mmax = 3050\<rparr>"
proof -
  have fresh: "getCurrentMassRange \<lparr>baseMass = 3000, state = Fresh\<rparr> = \<lparr>mmin = 2700, mmax = 3300\<rparr>"
    by (simp add: getCurrentMassRange_def getMinMass_def getMaxMass_def variance_def
        Math_round_def floor_eq_iff)
  show ?thesis
    unfolding fresh by (simp add: applyToMass_def SHIP_TYPES_def)
qed

text \<open>
  Claim C2, as stated: for every interval with \<open>0 \<le> min \<le> max\<close> and every unknown-mode ship
  with \<open>cold \<le> hot\<close>, \<open>applyToMass\<close> without a boundary state never narrows the interval.
  It fails where the clamp at 0 cuts the lower bound: the interval \<open>{min: 10, max: 200}\<close>
  of width 190 and an unknown-mode battleship give \<open>{min: 0, max: 100}\<close> of width 100.
\<close>

theorem unknown_width_counterexample:
  "(0 :: rat) \<le> 10 \<and> (10 :: rat) \<le> 200
   \<and> getMass (Ship ''bs'' Unknown) = \<lparr>mmin = 100, mmax = 150\<rparr>
   \<and> applyToMass \<lparr>ship = Ship ''bs'' Unknown, direction = A\<rparr> \<lparr>mmin = 10, mmax = 200\<rparr> None
       = \<lparr>mmin = 0, mmax = 100\<rparr>
   \<and> \<not> (mmax (applyToMass \<lparr>ship = Ship ''bs'' Unknown, direction = A\<rparr> \<lparr>mmin = 10, mmax = 200\<rparr> None)
          - mmin (applyToMass \<lparr>ship = Ship ''bs'' Unknown, direction = A\<rparr> \<lparr>mmin = 10, mmax = 200\<rparr> None)
        \<ge> mmax \<lparr>mmin = 10 :: rat, mmax = 200\<rparr> - mmin \<lparr>mmin = 10 :: rat, mmax = 200\<rparr>)"
  by (simp add: applyToMass_def SHIP_TYPES_def)

text \<open>
  Claim C2, amended: for every interval with \<open>0 \<le> min \<le> max\<close> and every ship whose mass is
  the range from \<open>cold\<close> to \<open>hot\<close> with \<open>cold \<le> hot\<close>, \<open>applyToMass\<close> without a boundary state
  does not narrow the interval exactly when \<open>cold \<le> min\<close> or the interval is a single point;
  in particular it never narrows an interval whose min is at least the cold mass.
\<close>

theorem unknown_width_amended:
  assumes "getMass (ship a) = \<lparr>mmin = c, mmax = h\<rparr>" and "c \<le> h"
    and "0 \<le> mmin cur" and "mmin cur \<le> mmax cur"
  shows "(mmax (applyToMass a cur None) - mmin (applyToMass a cur None) \<ge> mmax cur - mmin cur)
           \<longleftrightarrow> (c \<le> mmin cur \<or> mmin cur = mmax cur)"
  using assms by (auto simp: applyToMass_def Let_def max_def)

theorem unknown_width_amended_witness:
  "getMass (ship \<lparr>ship = Ship ''bs'' Unknown, direction = A\<rparr>) = \<lparr>mmin = 100, mmax = 150\<rparr>
   \<and> (100 :: rat) \<le> 150
   \<and> 0 \<le> mmin \<lparr>mmin = 2700 :: rat, mmax = 3300\<rparr>
   \<and> mmin \<lparr>mmin = 2700 :: rat, mmax = 3300\<rparr> \<le> mmax \<lparr>mmin = 2700 :: rat, mmax = 3300\<rparr>
   \<and> ((mmax (applyToMass \<lparr>ship = Ship ''bs'' Unknown, direction = A\<rparr> \<lparr>mmin = 2700, mmax = 3300\<rparr> None)
          - mmin (applyToMass \<lparr>ship = Ship ''bs'' Unknown, direction = A\<rparr> \<lparr>mmin = 2700, mmax = 3300\<rparr> None)
        \<ge> mmax \<lparr>mmin = 2700 :: rat, mmax = 3300\<rparr> - mmin \<lparr>mmin = 2700 :: rat, mmax = 3300\<rparr>)
       \<longleftrightarrow> ((100 :: rat) \<le> mmin \<lparr>mmin = 2700 :: rat, mmax = 3300\<rparr>
            \<or> mmin \<lparr>mmin = 2700 :: rat, mmax = 3300\<rparr> = mmax \<lparr>mmin = 2700 :: rat, mmax = 3300\<rparr>))"
proof -
  have m: "getMass (ship \<lparr>ship = Ship ''bs'' Unknown, direction = A\<rparr>) = \<lparr>mmin = 100, mmax = 150\<rparr>"
    by (simp add: SHIP_TYPES_def)
  show ?thesis
    using m unknown_width_amended [OF m, of "\<lparr>mmin = 2700, mmax = 3300\<rparr>"] by simp
qed

text \<open>
  Claim C3, as stated: for every interval with \<open>0 \<le> min \<le> max\<close> and every exact-mass ship,
  \<open>applyToMass\<close> without a boundary state preserves the width of the interval. It fails
  where the clamp at 0 applies: \<open>{min: 10, max: 200}\<close> of width 190 and a hot battleship
  (150) give \<open>{min: 0, max: 50}\<close> of width 50, with the subtractions rounded or not.
\<close>

theorem exact_width_counterexample:
  "(0 :: rat) \<le> 10 \<and> (10 :: rat) \<le> 200
   \<and> getMass (Ship ''bs'' Hot) = \<lparr>mmin = 150, mmax = 150\<rparr>
   \<and> applyToMass \<lparr>ship = Ship ''bs'' Hot, direction = A\<rparr> \<lparr>mmin = 10, mmax = 200\<rparr> None
       = \<lparr>mmin = 0, mmax = 50\<rparr>
   \<and> mmax (applyToMass \<lparr>ship = Ship ''bs'' Hot, direction = A\<rparr> \<lparr>mmin = 10, mmax = 200\<rparr> None)
          - mmin (applyToMass \<lparr>ship = Ship ''bs'' Hot, direction = A\<rparr> \<lparr>mmin = 10, mmax = 200\<rparr> None)
      \<noteq> mmax \<lparr>mmin = 10 :: rat, mmax = 200\<rparr> - mmin \<lparr>mmin = 10 :: rat, mmax = 200\<rparr>
   \<and> applyToMass_double \<lparr>ship = Ship ''bs'' Hot, direction = A\<rparr> \<lparr>mmin = 10, mmax = 200\<rparr> None
       = \<lparr>mmin = 0, mmax = 50\<rparr>"
proof -
  have m: "getMass (ship \<lparr>ship = Ship ''bs'' Hot, direction = A\<rparr>)
      = \<lparr>mmin = of_int 150, mmax = of_int 150\<rparr>"
    by (simp add: SHIP_TYPES_def)
  have "applyToMass_double \<lparr>ship = Ship ''bs'' Hot, direction = A\<rparr> \<lparr>mmin = 10, mmax = 200\<rparr> None
      = applyToMass \<lparr>ship = Ship ''bs'' Hot, direction = A\<rparr> \<lparr>mmin = 10, mmax = 200\<rparr> None"
    by (rule applyToMass_double_whole [OF m]) (simp_all add: fl_values)
  then show ?thesis
    by (simp add: applyToMass_def SHIP_TYPES_def)
qed

text \<open>
  The mass of a custom entry need not be a whole number, and then the width can change
  although nothing is clamped: with the double nearest to 0.2 taken from
  \<open>{min: 450, max: 550}\<close> the program's result has width \<open>100 - 2^-44\<close>, where exact
  subtraction would keep 100.
\<close>

lemma fractional_mass_width:
  "getMass (CustomMass (fl (1 / 5))) = \<lparr>mmin = fl (1 / 5), mmax = fl (1 / 5)\<rparr>
   \<and> fl (1 / 5) \<le> 450
   \<and> applyToMass_double \<lparr>ship = CustomMass (fl (1 / 5)), direction = A\<rparr> \<lparr>mmin = 450, mmax = 550\<rparr> None
       = \<lparr>mmin = 7912965282778317 / 17592186044416, mmax = 2418045971804979 / 4398046511104\<rparr>
   \<and> mmax (applyToMass_double \<lparr>ship = CustomMass (fl (1 / 5)), direction = A\<rparr> \<lparr>mmin = 450, mmax = 550\<rparr> None)
        - mmin (applyToMass_double \<lparr>ship = CustomMass (fl (1 / 5)), direction = A\<rparr> \<lparr>mmin = 450, mmax = 550\<rparr> None)
       = 100 - 1 / 2 ^ 44
   \<and> mmax (applyToMass \<lparr>ship = CustomMass (fl (1 / 5)), direction = A\<rparr> \<lparr>mmin = 450, mmax = 550\<rparr> None)
        - mmin (applyToMass \<lparr>ship = CustomMass (fl (1 / 5)), direction = A\<rparr> \<lparr>mmin = 450, mmax = 550\<rparr> None)
       = 100"
proof -
  define m where "m = fl (1 / 5)"
  have v: "fl (450 - m) = 7912965282778317 / 17592186044416"
    "fl (550 - m) = 2418045971804979 / 4398046511104"
    unfolding m_def by (rule fl_values)+
  have le: "m \<le> 450"
    unfolding m_def by (simp add: fl_values)
  show ?thesis
    unfolding m_def [symmetric]
    using le by (simp add: applyToMass_double_def applyToMass_def v)
qed

text \<open>
  Claim C3, amended: for every interval of doubles with \<open>0 \<le> min \<le> max < 2^53\<close> and every
  ship of exact mass \<open>m\<close> that is a whole number and not negative (the hot and cold masses
  of the ship table, a custom mass entered as a whole number), \<open>applyToMass\<close> without a
  boundary state, its subtractions rounded as JavaScript rounds them, subtracts exactly and
  preserves the width of the interval exactly when \<open>m \<le> min\<close> or the interval is a single
  point; in particular the width is preserved whenever the mass does not exceed the min.
\<close>

theorem exact_width_amended:
  assumes "getMass (ship a) = \<lparr>mmin = of_int n, mmax = of_int n\<rparr>" and "0 \<le> n"
    and "fl (mmin cur) = mmin cur" and "fl (mmax cur) = mmax cur"
    and "0 \<le> mmin cur" and "mmin cur \<le> mmax cur" and "mmax cur < 2 ^ 53"
  shows "applyToMass_double a cur None = applyToMass a cur None
     \<and> ((mmax (applyToMass_double a cur None) - mmin (applyToMass_double a cur None)
            = mmax cur - mmin cur)
          \<longleftrightarrow> (of_int n \<le> mmin cur \<or> mmin cur = mmax cur))"
proof -
  have lo: "mmin cur < 2 ^ 53"
    using assms(6,7) by simp
  have eq: "applyToMass_double a cur None = applyToMass a cur None"
    using assms(1,2,3,4) lo assms(7) by (intro applyToMass_double_whole) simp_all
  have "(mmax (applyToMass a cur None) - mmin (applyToMass a cur None) = mmax cur - mmin cur)
          \<longleftrightarrow> (of_int n \<le> mmin cur \<or> mmin cur = mmax cur)"
    using assms(1,5,6) by (auto simp: applyToMass_def Let_def max_def)
  then show ?thesis
    using eq by simp
qed

theorem exact_width_amended_witness:
  "getMass (ship \<lparr>ship = CustomMass 500, direction = B\<rparr>) = \<lparr>mmin = of_int 500, mmax = of_int 500\<rparr>
   \<and> (0 :: int) \<le> 500
   \<and> fl (mmin \<lparr>mmin = 2000 :: rat, mmax = 3000\<rparr>) = mmin \<lparr>mmin = 2000 :: rat, mmax = 3000\<rparr>
   \<and> fl (mmax \<lparr>mmin = 2000 :: rat, mmax = 3000\<rparr>) = mmax \<lparr>mmin = 2000 :: rat, mmax = 3000\<rparr>
   \<and> 0 \<le> mmin \<lparr>mmin = 2000 :: rat, mmax = 3000\<rparr>
   \<and> mmin \<lparr>mmin = 2000 :: rat, mmax = 3000\<rparr> \<le> mmax \<lparr>mmin = 2000 :: rat, mmax = 3000\<rparr>
   \<and> mmax \<lparr>mmin = 2000 :: rat, mmax = 3000\<rparr> < 2 ^ 53
   \<and> applyToMass_double \<lparr>ship = CustomMass 500, direction = B\<rparr> \<lparr>mmin = 2000, mmax = 3000\<rparr> None
       = \<lparr>mmin = 1500, mmax = 2500\<rparr>
   \<and> mmax (applyToMass_double \<lparr>ship = CustomMass 500, direction = B\<rparr> \<lparr>mmin = 2000, mmax = 3000\<rparr> None)
        - mmin (applyToMass_double \<lparr>ship = CustomMass 500, direction = B\<rparr> \<lparr>mmin = 2000, mmax = 3000\<rparr> None)
       = mmax \<lparr>mmin = 2000 :: rat, mmax = 3000\<rparr> - mmin \<lparr>mmin = 2000 :: rat, mmax = 3000\<rparr>"
proof -
  have m: "getMass (ship \<lparr>ship = CustomMass 500, direction = B\<rparr>) = \<lparr>mmin = of_int 500, mmax = of_int 500\<rparr>"
    by simp
  have n: "(0 :: int) \<le> 500"
    by simp
  have d: "fl (mmin \<lparr>mmin = 2000 :: rat, mmax = 3000\<rparr>) = mmin \<lparr>mmin = 2000 :: rat, mmax = 3000\<rparr>"
    "fl (mmax \<lparr>mmin = 2000 :: rat, mmax = 3000\<rparr>) = mmax \<lparr>mmin = 2000 :: rat, mmax = 3000\<rparr>"
    by (simp_all add: fl_values)
  have b: "0 \<le> mmin \<lparr>mmin = 2000 :: rat, mmax = 3000\<rparr>"
    "mmin \<lparr>mmin = 2000 :: rat, mmax = 3000\<rparr> \<le> mmax \<lparr>mmin = 2000 :: rat, mmax = 3000\<rparr>"
    "mmax \<lparr>mmin = 2000 :: rat, mmax = 3000\<rparr> < 2 ^ 53"
    by simp_all
  have r: "applyToMass \<lparr>ship = CustomMass 500, direction = B\<rparr> \<lparr>mmin = 2000, mmax = 3000\<rparr> None
      = \<lparr>mmin = 1500, mmax = 2500\<rparr>"
    by (simp add: applyToMass_def)
  show ?thesis
    using m n d b r exact_width_amended [OF m n d b] by simp
qed

section \<open>Game mode: derived state, events and the far side\<close>

lemma targetState_spec:
  "initialActualMass s \<noteq> 0 \<Longrightarrow>
     targetState s = spec_derivedState (remainingMass s) (initialActualMass s)"
  by (simp add: targetState_def spec_derivedState_def spec_percentRemaining_def percentAtMost_def)

text \<open>The percentages and derived states of the sessions used below.\<close>

lemma percent_values:
  "spec_percentRemaining 2000 3000 = 2345624805922133 / 35184372088832"
  "spec_percentRemaining (fl (93 / 10)) 93 = 10"
  by code_simp+

lemma derived_values:
  "spec_derivedState 66 675 = Critical"
  "spec_derivedState (1351 / 4) 675 = Stable"
  "spec_derivedState 1400 2700 = Stable"
  "spec_derivedState 1360 2700 = Stable"
  "spec_derivedState 1320 2700 = Destab"
  "spec_derivedState 1400 3000 = Destab"
  "spec_derivedState 2000 3000 = Stable"
  "spec_derivedState (fl (93 / 10)) 93 = Critical"
  by code_simp+

text \<open>
  The rounding of the quotient decides a case at a threshold: of a capacity of 93 the
  double nearest to 9.3, which lies above 9.3, is more than 10 percent, but the program
  computes exactly 10 and derives \<open>critical\<close>.
\<close>

lemma percent_rounded_at_threshold:
  "10 < fl (93 / 10) / 93 * 100
   \<and> spec_percentRemaining (fl (93 / 10)) 93 = 10
   \<and> targetState (newUI\<lparr>initialActualMass := 93, remainingMass := fl (93 / 10)\<rparr>) = Critical"
proof -
  have "fl (93 / 10) = 2617717283409101 / 281474976710656"
    by code_simp
  then have "10 < fl (93 / 10) / 93 * 100"
    by simp
  moreover have "targetState (newUI\<lparr>initialActualMass := 93, remainingMass := fl (93 / 10)\<rparr>) = Critical"
    using targetState_spec [of "newUI\<lparr>initialActualMass := 93, remainingMass := fl (93 / 10)\<rparr>"]
    by (simp add: derived_values)
  ultimately show ?thesis
    by (simp add: percent_values)
qed

lemma targetState_cases: "targetState s \<in> {Gone, Critical, Destab, Stable}"
  by (simp add: targetState_def)

lemma determineOutcome_newState:
  "newState (determineOutcome s) =
     (if targetState s = currentWhState s \<and> targetState s \<noteq> Gone then NoChange
      else To (targetState s))"
  using targetState_cases [of s]
  by (auto simp: determineOutcome_def Let_def)

lemma updateState_determineOutcome:
  "currentWhState (updateState (determineOutcome s) s) = targetState s"
  by (simp add: updateState_def determineOutcome_newState)

lemma determineOutcome_collapse:
  "(determineOutcome s = \<lparr>newState = To Gone, otype = OutCollapse\<rparr>) \<longleftrightarrow> remainingMass s \<le> 0"
  using targetState_cases [of s]
  by (auto simp: determineOutcome_def Let_def targetState_def split: if_splits)

text \<open>
  Claim C4, as stated: \<open>determineOutcome\<close> returns exactly the state that the thresholds
  on \<open>percentRemaining\<close> give. It does not where the session is in that state already:
  with 2000 of 3000 remaining, about 66.7 percent, the thresholds give \<open>stable\<close>, and in a
  session whose state is \<open>stable\<close> the method returns \<open>'no-change'\<close> with the type
  \<open>'success'\<close>, not \<open>'stable'\<close>.
\<close>

theorem determineOutcome_counterexample:
  "0 < remainingMass (newUI\<lparr>initialActualMass := 3000, remainingMass := 2000, currentWhState := Stable\<rparr>)
   \<and> 50 < spec_percentRemaining 2000 3000
   \<and> spec_derivedState
        (remainingMass (newUI\<lparr>initialActualMass := 3000, remainingMass := 2000, currentWhState := Stable\<rparr>))
        (initialActualMass (newUI\<lparr>initialActualMass := 3000, remainingMass := 2000, currentWhState := Stable\<rparr>))
       = Stable
   \<and> determineOutcome (newUI\<lparr>initialActualMass := 3000, remainingMass := 2000, currentWhState := Stable\<rparr>)
       = \<lparr>newState = NoChange, otype = OutSuccess\<rparr>
   \<and> newState (determineOutcome (newUI\<lparr>initialActualMass := 3000, remainingMass := 2000, currentWhState := Stable\<rparr>))
       \<noteq> To Stable"
proof -
  have t: "targetState (newUI\<lparr>initialActualMass := 3000, remainingMass := 2000, currentWhState := Stable\<rparr>)
      = Stable"
    using targetState_spec [of "newUI\<lparr>initialActualMass := 3000, remainingMass := 2000, currentWhState := Stable\<rparr>"]
    by (simp add: derived_values)
  show ?thesis
    by (simp add: determineOutcome_def Let_def t derived_values percent_values)
qed

text \<open>
  Claim C4, amended. With \<open>percentRemaining\<close> computed in doubles, the thresholds give
  \<open>gone\<close> when the remaining mass is at most 0, \<open>critical\<close> at 10 percent or less, \<open>destab\<close>
  at 50 percent or less and \<open>stable\<close> otherwise. \<open>determineOutcome\<close> returns that state as
  \<open>newState\<close> when it differs from the state of the session or is \<open>gone\<close>, and
  \<open>'no-change'\<close> when the session is in it already; the collapse outcome is returned
  exactly when the remaining mass is at most 0, whatever the prior state; and the state of
  the session after the callers have applied \<open>newState\<close> is the state the thresholds give.
\<close>

theorem determineOutcome_derives_state:
  assumes "initialActualMass s \<noteq> 0"
  shows "newState (determineOutcome s)
           = (if spec_derivedState (remainingMass s) (initialActualMass s) = currentWhState s
                 \<and> spec_derivedState (remainingMass s) (initialActualMass s) \<noteq> Gone
              then NoChange
              else To (spec_derivedState (remainingMass s) (initialActualMass s)))
     \<and> ((determineOutcome s = \<lparr>newState = To Gone, otype = OutCollapse\<rparr>) \<longleftrightarrow> remainingMass s \<le> 0)
     \<and> currentWhState (updateState (determineOutcome s) s)
           = spec_derivedState (remainingMass s) (initialActualMass s)"
  using targetState_spec [OF assms]
  by (auto simp add: updateState_determineOutcome determineOutcome_newState determineOutcome_collapse)

lemma updateState_frame:
  "shipsOnFarSide (updateState oc s) = shipsOnFarSide s"
  "committedActions (updateState oc s) = committedActions s"
  "randomEventOccurred (updateState oc s) = randomEventOccurred s"
  "currentMode (updateState oc s) = currentMode s"
  "remainingMass (updateState oc s) = remainingMass s"
  by (simp_all add: updateState_def split: state_change.splits)

lemma eventStep_frame:
  "shipsOnFarSide (ses (fst (eventStep ea st))) = shipsOnFarSide (ses st)"
  "committedActions (ses (fst (eventStep ea st))) = committedActions (ses st)"
  "randomEventOccurred (ses (fst (eventStep ea st))) = randomEventOccurred (ses st)"
  "currentMode (ses (fst (eventStep ea st))) = currentMode (ses st)"
  by (simp_all add: eventStep_def Let_def updateState_frame)

lemma eventLoop_frame:
  "shipsOnFarSide (ses (eventLoop eas st)) = shipsOnFarSide (ses st)
   \<and> committedActions (ses (eventLoop eas st)) = committedActions (ses st)
   \<and> randomEventOccurred (ses (eventLoop eas st)) = randomEventOccurred (ses st)
   \<and> currentMode (ses (eventLoop eas st)) = currentMode (ses st)"
proof (induction eas arbitrary: st)
  case Nil
  then show ?case by simp
next
  case (Cons ea eas)
  show ?case
  proof (cases "currentWhState (ses st) = Gone")
    case True
    then show ?thesis by simp
  next
    case False
    obtain st' oc where step: "eventStep ea st = (st', oc)"
      by (cases "eventStep ea st")
    have fr: "shipsOnFarSide (ses st') = shipsOnFarSide (ses st)"
      "committedActions (ses st') = committedActions (ses st)"
      "randomEventOccurred (ses st') = randomEventOccurred (ses st)"
      "currentMode (ses st') = currentMode (ses st)"
      using eventStep_frame [of ea st] step by simp_all
    show ?thesis
      using False step fr Cons.IH [of st'] by simp
  qed
qed

lemma processRandomEventAsAction_frame:
  "shipsOnFarSide (processRandomEventAsAction ev s) = shipsOnFarSide s"
  "randomEventOccurred (processRandomEventAsAction ev s)"
  "currentMode (processRandomEventAsAction ev s) = currentMode s"
  "\<exists>e. committedActions (processRandomEventAsAction ev s) = committedActions s @ [e]
       \<and> kind e = EventEntry \<and> eventData e = Some ev \<and> shipsOnFarSide_e e = shipsOnFarSide s"
  by (simp_all add: processRandomEventAsAction_def Let_def eventLoop_frame)

lemma processRandomEventAsAction_count:
  "eventCount (processRandomEventAsAction ev s) = Suc (eventCount s)"
  using processRandomEventAsAction_frame(4) [of ev s]
  by (auto simp: eventCount_def)

lemma checkForRandomEvents_blocked:
  "randomEventOccurred s \<Longrightarrow> checkForRandomEvents evs roll s = []"
  by (simp add: checkForRandomEvents_def)

lemma processRandomEventsAfterAction_cases:
  "processRandomEventsAfterAction sz evs r s = s
   \<or> (\<not> randomEventOccurred s
      \<and> (\<exists>ev. processRandomEventsAfterAction sz evs r s = processRandomEventAsAction ev s))"
  by (auto simp: processRandomEventsAfterAction_def Let_def checkForRandomEvents_def)

lemma processRandomEventsAfterAction_blocked:
  "randomEventOccurred s \<Longrightarrow> processRandomEventsAfterAction sz evs r s = s"
  using processRandomEventsAfterAction_cases [of sz evs r s] by auto

lemma processRandomEventsAfterAction_far:
  "shipsOnFarSide (processRandomEventsAfterAction sz evs r s) = shipsOnFarSide s"
  using processRandomEventsAfterAction_cases [of sz evs r s]
  by (auto simp: processRandomEventAsAction_frame)

lemma processRandomEventsAfterAction_atMostOne:
  assumes "atMostOne s"
  shows "atMostOne (processRandomEventsAfterAction sz evs r s)"
  using processRandomEventsAfterAction_cases [of sz evs r s] assms
  by (auto simp: atMostOne_def processRandomEventAsAction_count processRandomEventAsAction_frame)

lemma handleAddAction_split:
  "\<exists>s4. handleAddAction sz evs r dir sh s = processRandomEventsAfterAction sz evs r s4
      \<and> eventCount s4 = eventCount s
      \<and> randomEventOccurred s4 = randomEventOccurred s
      \<and> shipsOnFarSide s4 = trackFarSide dir sh (shipsOnFarSide s)"
  unfolding handleAddAction_def Let_def
  by (intro exI conjI, rule refl) (simp_all add: eventCount_def updateState_frame)

lemma handleAddAction_atMostOne:
  assumes "atMostOne s"
  shows "atMostOne (handleAddAction sz evs r dir sh s)"
proof -
  obtain s4 where s4: "handleAddAction sz evs r dir sh s = processRandomEventsAfterAction sz evs r s4"
    "eventCount s4 = eventCount s" "randomEventOccurred s4 = randomEventOccurred s"
    using handleAddAction_split [of sz evs r dir sh s] by blast
  have "atMostOne s4"
    using assms s4 by (simp add: atMostOne_def)
  then show ?thesis
    using s4(1) by (simp add: processRandomEventsAfterAction_atMostOne)
qed

lemma handleAddAction_blocked:
  assumes "randomEventOccurred s"
  shows "eventCount (handleAddAction sz evs r dir sh s) = eventCount s"
    and "randomEventOccurred (handleAddAction sz evs r dir sh s)"
proof -
  obtain s4 where s4: "handleAddAction sz evs r dir sh s = processRandomEventsAfterAction sz evs r s4"
    "eventCount s4 = eventCount s" "randomEventOccurred s4 = randomEventOccurred s"
    using handleAddAction_split [of sz evs r dir sh s] by blast
  have "processRandomEventsAfterAction sz evs r s4 = s4"
    using assms s4 by (simp add: processRandomEventsAfterAction_blocked)
  then show "eventCount (handleAddAction sz evs r dir sh s) = eventCount s"
    and "randomEventOccurred (handleAddAction sz evs r dir sh s)"
    using s4 assms by simp_all
qed

lemma play_atMostOne: "atMostOne s \<Longrightarrow> atMostOne (play sz evs acts s)"
proof (induction acts arbitrary: s)
  case Nil
  then show ?case by simp
next
  case (Cons a acts)
  obtain r dir sh where a: "a = (r, dir, sh)"
    by (cases a)
  show ?case
    using Cons a by (simp add: handleAddAction_atMostOne)
qed

lemma play_blocked:
  "randomEventOccurred s \<Longrightarrow> eventCount (play sz evs acts s) = eventCount s"
proof (induction acts arbitrary: s)
  case Nil
  then show ?case by simp
next
  case (Cons a acts)
  obtain r dir sh where a: "a = (r, dir, sh)"
    by (cases a)
  show ?case
    using Cons a by (simp add: handleAddAction_blocked)
qed

lemma start_atMostOne:
  "atMostOne (startTracking whSize whState restr r1 r2 (switchToMode GameMode (resetAll s0)))"
  by (simp add: atMostOne_def eventCount_def startTracking_def switchToMode_def resetAll_def
      initializeGame_def Let_def)

text \<open>
  Claim C5. Whatever the event table and its probabilities, the size classes, the player
  actions and the random values, a game session started after a reset holds at most one
  event entry; every run of \<open>processRandomEventAsAction\<close> adds one such entry; and once
  \<open>randomEventOccurred\<close> is true, \<open>checkForRandomEvents\<close> returns no events and no further
  event is processed by any sequence of player actions.
\<close>

theorem one_event_per_session:
  "eventCount (play sz evs acts
      (startTracking whSize whState restr r1 r2 (switchToMode GameMode (resetAll s0)))) \<le> 1
   \<and> eventCount (processRandomEventAsAction ev s') = Suc (eventCount s')
   \<and> (randomEventOccurred s \<longrightarrow>
        checkForRandomEvents evs roll s = []
        \<and> eventCount (play sz evs acts s) = eventCount s)"
  using play_atMostOne [OF start_atMostOne, of sz evs acts whSize whState restr r1 r2 s0]
  by (simp add: atMostOne_def checkForRandomEvents_blocked play_blocked
      processRandomEventAsAction_count)

text \<open>
  Claim C10. Executing a random event never changes the far-side fleet ledger: the map
  \<open>shipsOnFarSide\<close> after \<open>processRandomEventAsAction\<close> is the map before it, and the
  snapshot in the event's entry is that same map; so is the map after
  \<open>processRandomEventsAfterAction\<close>. A player action, by contrast, leaves exactly the
  ledger updated for its own ship and direction, whether or not an event follows it: an
  outgoing ship with a type adds one to the count of its type, an incoming one takes one
  away from a positive count and deletes the key when the count reaches 0.
\<close>

theorem event_leaves_far_side:
  "shipsOnFarSide (processRandomEventAsAction ev s) = shipsOnFarSide s
   \<and> shipsOnFarSide_e (last (committedActions (processRandomEventAsAction ev s))) = shipsOnFarSide s
   \<and> shipsOnFarSide (processRandomEventsAfterAction sz evs r s) = shipsOnFarSide s
   \<and> shipsOnFarSide (handleAddAction sz evs r dir sh s) = trackFarSide dir sh (shipsOnFarSide s)
   \<and> trackFarSide B (Ship (c # cs) md) far (c # cs)
       = Some ((case far (c # cs) of None \<Rightarrow> 0 | Some n \<Rightarrow> n) + 1)
   \<and> trackFarSide A (Ship (c # cs) md) far (c # cs)
       = (case far (c # cs) of
            None \<Rightarrow> None
          | Some n \<Rightarrow> if n = 0 then Some 0 else if n = 1 then None else Some (n - 1))"
proof -
  have far: "trackFarSide B (Ship (c # cs) md) far (c # cs)
       = Some ((case far (c # cs) of None \<Rightarrow> 0 | Some n \<Rightarrow> n) + 1)"
    "trackFarSide A (Ship (c # cs) md) far (c # cs)
       = (case far (c # cs) of
            None \<Rightarrow> None
          | Some n \<Rightarrow> if n = 0 then Some 0 else if n = 1 then None else Some (n - 1))"
    by (auto simp: trackFarSide_def split: option.splits)
  obtain s4 where s4: "handleAddAction sz evs r dir sh s = processRandomEventsAfterAction sz evs r s4"
    "shipsOnFarSide s4 = trackFarSide dir sh (shipsOnFarSide s)"
    using handleAddAction_split [of sz evs r dir sh s] by blast
  have "shipsOnFarSide_e (last (committedActions (processRandomEventAsAction ev s))) = shipsOnFarSide s"
    using processRandomEventAsAction_frame(4) [of ev s] by auto
  then show ?thesis
    using s4 far by (simp add: processRandomEventAsAction_frame processRandomEventsAfterAction_far)
qed

lemma pick_index:
  fixes u :: rat
  assumes "0 \<le> u" "u < 1" "0 < n"
  shows "nat \<lfloor>u * of_nat n\<rfloor> < n"
    and "0 \<le> \<lfloor>u * of_nat n\<rfloor>"
    and "(nat \<lfloor>u * of_nat n\<rfloor> = j) \<longleftrightarrow> (of_nat j / of_nat n \<le> u \<and> u < of_nat (Suc j) / of_nat n)"
proof -
  have n0: "(0::rat) < of_nat n" using assms by simp
  have nonneg: "0 \<le> u * of_nat n" using assms by simp
  then show fl0: "0 \<le> \<lfloor>u * of_nat n\<rfloor>" by simp
  have "u * of_nat n < of_nat n"
    using assms n0 by simp
  then have "\<lfloor>u * of_nat n\<rfloor> < int n"
    by (simp add: floor_less_iff)
  then show "nat \<lfloor>u * of_nat n\<rfloor> < n"
    using fl0 by linarith
  have "(nat \<lfloor>u * of_nat n\<rfloor> = j) \<longleftrightarrow> (\<lfloor>u * of_nat n\<rfloor> = int j)"
    using fl0 by linarith
  also have "\<dots> \<longleftrightarrow> (of_nat j \<le> u * of_nat n \<and> u * of_nat n < of_nat j + 1)"
    by (simp add: floor_eq_iff)
  also have "\<dots> \<longleftrightarrow> (of_nat j / of_nat n \<le> u \<and> u < of_nat (Suc j) / of_nat n)"
    using n0 by (simp add: pos_divide_le_eq pos_less_divide_eq add.commute)
  finally show "(nat \<lfloor>u * of_nat n\<rfloor> = j) \<longleftrightarrow> (of_nat j / of_nat n \<le> u \<and> u < of_nat (Suc j) / of_nat n)" .
qed


lemma validEvents_Nil [simp]: "validEvents sz restr [] = []"
  by (simp add: validEvents_def)

lemma processRandomEventsAfterAction_eq:
  assumes "0 \<le> pick r" and "pick r < 1"
  shows "processRandomEventsAfterAction sz evs r s =
           (if currentMode s = GameMode \<and> 0 < remainingMass s
                \<and> validEvents sz (initialWhRestriction s) (checkForRandomEvents evs (rolls r) s) \<noteq> []
            then processRandomEventAsAction
                   (validEvents sz (initialWhRestriction s) (checkForRandomEvents evs (rolls r) s)
                      ! nat \<lfloor>pick r * of_nat (length (validEvents sz (initialWhRestriction s)
                                   (checkForRandomEvents evs (rolls r) s)))\<rfloor>) s
            else s)"
proof -
  define valid where "valid = validEvents sz (initialWhRestriction s) (checkForRandomEvents evs (rolls r) s)"
  show ?thesis
  proof (cases "valid = []")
    case True
    then show ?thesis
      unfolding processRandomEventsAfterAction_def Let_def valid_def by simp
  next
    case False
    then have n: "0 < length valid" by simp
    have trig: "checkForRandomEvents evs (rolls r) s \<noteq> []"
      using False unfolding valid_def by (cases "checkForRandomEvents evs (rolls r) s") simp_all
    have idx: "nat \<lfloor>pick r * of_nat (length valid)\<rfloor> < length valid"
      "0 \<le> \<lfloor>pick r * of_nat (length valid)\<rfloor>"
      using pick_index(1,2) [OF assms n] by simp_all
    show ?thesis
      unfolding processRandomEventsAfterAction_def Let_def valid_def [symmetric]
      using False trig idx by simp
  qed
qed




section \<open>Tracker mode: committing a batch\<close>

lemma applyStaged_foldl:
  "applyStaged acts m = foldl (\<lambda>m a. applyToMass a m None) m acts"
  by (induction acts arbitrary: m) simp_all

lemma clampToBoundaries_spec: "clampToBoundaries b m = spec_intersect b m"
  by (simp add: clampToBoundaries_def spec_intersect_def Let_def)

lemma spec_intersect_ordered: "mmin (spec_intersect b m) \<le> mmax (spec_intersect b m)"
  by (simp add: spec_intersect_def Let_def min_le_iff_disj)

lemma commitLoop_passed:
  "fst (commitLoop acts (p, far)) = p + sum_list (map spec_passedMass acts)"
  by (induction acts arbitrary: p far) (simp_all add: Let_def spec_passedMass_def)

lemma commitLoop_far:
  "snd (commitLoop acts (p, far)) = foldl (\<lambda>f a. trackFarSide (direction a) (ship a) f) far acts"
  by (induction acts arbitrary: p far) (simp_all add: Let_def)

lemma lastFinalMass_snoc:
  "lastFinalMass cur (es @ [e]) = (case finalMass e of Some m \<Rightarrow> m | None \<Rightarrow> lastFinalMass cur es)"
  by (induction es arbitrary: cur) (simp_all split: option.splits)

lemma calculateCurrentMass_last:
  assumes "list_all (\<lambda>e. finalMass e \<noteq> None) (committedActions s)"
  shows "calculateCurrentMass s =
     (if committedActions s = []
      then getCurrentMassRange \<lparr>baseMass = initialWhSize s, state = initialWhState s\<rparr>
      else the (finalMass (last (committedActions s))))"
proof (cases "committedActions s" rule: rev_cases)
  case Nil
  then show ?thesis by (simp add: calculateCurrentMass_def)
next
  case (snoc es e)
  then have "finalMass e \<noteq> None"
    using assms by simp
  then show ?thesis
    using snoc by (auto simp: calculateCurrentMass_def lastFinalMass_snoc)
qed

lemma commitStagingToLog_fields:
  "committedActions (commitStagingToLog acts change final s)
     = committedActions s @ [last (committedActions (commitStagingToLog acts change final s))]"
  "finalMass (last (committedActions (commitStagingToLog acts change final s))) = Some final"
  "passedMass (last (committedActions (commitStagingToLog acts change final s)))
     = Some (sum_list (map spec_passedMass acts))"
  "actions (last (committedActions (commitStagingToLog acts change final s))) = acts"
  "stateChange (last (committedActions (commitStagingToLog acts change final s))) = change"
  "currentWhState (commitStagingToLog acts change final s) = currentWhState s"
  "initialWhSize (commitStagingToLog acts change final s) = initialWhSize s"
  "initialWhState (commitStagingToLog acts change final s) = initialWhState s"
  "shipsOnFarSide (commitStagingToLog acts change final s)
     = foldl (\<lambda>f a. trackFarSide (direction a) (ship a) f) (shipsOnFarSide s) acts"
proof -
  obtain p far where loop: "commitLoop acts (0, shipsOnFarSide s) = (p, far)"
    by (cases "commitLoop acts (0, shipsOnFarSide s)")
  have p: "p = sum_list (map spec_passedMass acts)"
    using commitLoop_passed [of acts 0 "shipsOnFarSide s"] loop by simp
  have far: "far = foldl (\<lambda>f a. trackFarSide (direction a) (ship a) f) (shipsOnFarSide s) acts"
    using commitLoop_far [of acts 0 "shipsOnFarSide s"] loop by simp
  show
    "committedActions (commitStagingToLog acts change final s)
       = committedActions s @ [last (committedActions (commitStagingToLog acts change final s))]"
    "finalMass (last (committedActions (commitStagingToLog acts change final s))) = Some final"
    "passedMass (last (committedActions (commitStagingToLog acts change final s)))
       = Some (sum_list (map spec_passedMass acts))"
    "actions (last (committedActions (commitStagingToLog acts change final s))) = acts"
    "stateChange (last (committedActions (commitStagingToLog acts change final s))) = change"
    "currentWhState (commitStagingToLog acts change final s) = currentWhState s"
    "initialWhSize (commitStagingToLog acts change final s) = initialWhSize s"
    "initialWhState (commitStagingToLog acts change final s) = initialWhState s"
    "shipsOnFarSide (commitStagingToLog acts change final s)
       = foldl (\<lambda>f a. trackFarSide (direction a) (ship a) f) (shipsOnFarSide s) acts"
    using p far by (simp_all add: commitStagingToLog_def Let_def loop)
qed

text \<open>
  Claim C6. Committing a non-empty staged queue in tracker mode: the entry appended to the
  ledger holds the staged actions; its interval is the last committed interval with every
  staged action applied in queue order without boundary clamping, intersected once with
  the boundaries of the declared state (the current state for \<open>'no-change'\<close>) with min
  forced below max, and it is the interval \<open>calculateCurrentMass\<close> returns afterwards;
  its passed mass is the sum over the actions of the exact mass when min = max and of the
  midpoint of cold and hot otherwise; the session is in the declared state and the staged
  queue is empty afterwards.
\<close>

theorem applyStaging_commit:
  assumes "stagedActions s \<noteq> []"
  shows
    "(let declared = (case change of NoChange \<Rightarrow> currentWhState s | To st \<Rightarrow> st);
          s' = applyStaging change s;
          e = last (committedActions s')
      in committedActions s' = committedActions s @ [e]
         \<and> actions e = stagedActions s
         \<and> finalMass e = Some (spec_commitInterval s declared)
         \<and> calculateCurrentMass s' = spec_commitInterval s declared
         \<and> mmin (spec_commitInterval s declared) \<le> mmax (spec_commitInterval s declared)
         \<and> passedMass e = Some (sum_list (map spec_passedMass (stagedActions s)))
         \<and> currentWhState s' = declared
         \<and> stagedActions s' = [])"
proof -
  define declared where "declared = (case change of NoChange \<Rightarrow> currentWhState s | To st \<Rightarrow> st)"
  define s1 where "s1 = (case change of NoChange \<Rightarrow> s | To st \<Rightarrow> s\<lparr>currentWhState := st\<rparr>)"
  define final where "final = clampToBoundaries
      (getStateBoundaries \<lparr>baseMass = initialWhSize s, state = declared\<rparr>)
      (applyStaged (stagedActions s) (calculateCurrentMass s))"
  define s2 where "s2 = commitStagingToLog (stagedActions s) change final s1"
  have run: "applyStaging change s = s2\<lparr>stagedActions := []\<rparr>"
    using assms by (simp add: applyStaging_def Let_def s2_def final_def s1_def declared_def)
  have fin: "final = spec_commitInterval s declared"
    by (simp add: final_def spec_commitInterval_def clampToBoundaries_spec applyStaged_foldl)
  have s1: "committedActions s1 = committedActions s" "currentWhState s1 = declared"
    "initialWhSize s1 = initialWhSize s" "initialWhState s1 = initialWhState s"
    by (simp_all add: s1_def declared_def split: state_change.splits)
  have ca: "committedActions s2 = committedActions s @ [last (committedActions s2)]"
    using commitStagingToLog_fields(1) [of "stagedActions s" change final s1] s1
    by (simp add: s2_def)
  have cur: "calculateCurrentMass (s2\<lparr>stagedActions := []\<rparr>) = final"
  proof -
    have "calculateCurrentMass (s2\<lparr>stagedActions := []\<rparr>)
        = lastFinalMass (getCurrentMassRange \<lparr>baseMass = initialWhSize s2, state = initialWhState s2\<rparr>)
            (committedActions s @ [last (committedActions s2)])"
      using ca by (simp add: calculateCurrentMass_def)
    also have "\<dots> = final"
      by (simp add: lastFinalMass_snoc s2_def commitStagingToLog_fields(2))
    finally show ?thesis .
  qed
  have ord: "mmin final \<le> mmax final"
    unfolding fin spec_commitInterval_def by (rule spec_intersect_ordered)
  show ?thesis
    unfolding Let_def declared_def [symmetric] run
    using ca cur s1 ord
    by (simp add: fin [symmetric] s2_def commitStagingToLog_fields(2-9))
qed

section \<open>Game mode: the consistency check\<close>

lemma processRandomEventsAfterAction_none:
  assumes "triggered (rolls r) 0 evs = []"
  shows "processRandomEventsAfterAction sz evs r s = s"
  using assms by (simp add: processRandomEventsAfterAction_def checkForRandomEvents_def Let_def)

lemma handleAddAction_exact:
  assumes "getMass sh = \<lparr>mmin = m, mmax = m\<rparr>"
    and "targetState (s\<lparr>remainingMass := remainingMass s - m\<rparr>) = t"
  shows "\<exists>s4. handleAddAction sz evs r dir sh s = processRandomEventsAfterAction sz evs r s4
      \<and> remainingMass s4 = remainingMass s - m
      \<and> initialActualMass s4 = initialActualMass s
      \<and> initialWhSize s4 = initialWhSize s
      \<and> initialWhRestriction s4 = initialWhRestriction s
      \<and> currentMode s4 = currentMode s
      \<and> randomEventOccurred s4 = randomEventOccurred s
      \<and> currentWhState s4 = t
      \<and> calculateCurrentMass s4 =
           (if t = Gone then \<lparr>mmin = 0, mmax = 0\<rparr>
            else clampToBoundaries (getStateBoundaries \<lparr>baseMass = initialWhSize s, state = t\<rparr>)
                   (applyToMass \<lparr>ship = sh, direction = dir\<rparr> (calculateCurrentMass s) None))"
proof -
  define s1 where "s1 = s\<lparr>remainingMass := remainingMass s - m\<rparr>"
  define s2 where "s2 = s1\<lparr>shipsOnFarSide := trackFarSide dir sh (shipsOnFarSide s1)\<rparr>"
  have "targetState s2 = targetState (s\<lparr>remainingMass := remainingMass s - m\<rparr>)"
    by (simp add: s2_def s1_def targetState_def percentAtMost_def)
  then have t2: "targetState s2 = t"
    using assms(2) by simp
  define oc where "oc = determineOutcome s2"
  define s3 where "s3 = updateState oc s2"
  have st: "currentWhState s3 = t"
    using updateState_determineOutcome [of s2] t2 by (simp add: s3_def oc_def)
  have gone: "newState oc = To Gone \<longleftrightarrow> t = Gone"
    using t2 by (auto simp: oc_def determineOutcome_newState)
  have s3f: "remainingMass s3 = remainingMass s - m" "initialActualMass s3 = initialActualMass s"
    "committedActions s3 = committedActions s" "initialWhSize s3 = initialWhSize s"
    "initialWhState s3 = initialWhState s" "initialWhRestriction s3 = initialWhRestriction s"
    "currentMode s3 = currentMode s" "randomEventOccurred s3 = randomEventOccurred s"
    by (simp_all add: s3_def updateState_def s2_def s1_def split: state_change.splits)
  have cm: "calculateCurrentMass s3 = calculateCurrentMass s"
    by (simp add: calculateCurrentMass_def s3f)
  define disp where "disp = (if newState oc = To Gone then \<lparr>mmin = 0, mmax = 0\<rparr>
             else clampToBoundaries (getStateBoundaries (getCurrentWormhole s3))
                    (applyToMass \<lparr>ship = sh, direction = dir\<rparr> (calculateCurrentMass s3) None))"
  have actual: "(if mmin (getMass sh) = mmax (getMass sh) then mmin (getMass sh)
       else if coin r < 1 / 2 then mmin (getMass sh) else mmax (getMass sh)) = m"
    using assms(1) by simp
  have "\<exists>e. handleAddAction sz evs r dir sh s
          = processRandomEventsAfterAction sz evs r (s3\<lparr>committedActions := committedActions s3 @ [e]\<rparr>)
          \<and> finalMass e = Some disp"
    unfolding handleAddAction_def Let_def actual disp_def s3_def oc_def s2_def s1_def
    by (intro exI conjI, rule refl) simp
  then obtain e where run: "handleAddAction sz evs r dir sh s
          = processRandomEventsAfterAction sz evs r (s3\<lparr>committedActions := committedActions s3 @ [e]\<rparr>)"
    and e: "finalMass e = Some disp"
    by blast
  define s4 where "s4 = s3\<lparr>committedActions := committedActions s3 @ [e]\<rparr>"
  have "calculateCurrentMass s4 = disp"
    using e by (simp add: s4_def calculateCurrentMass_def lastFinalMass_snoc)
  then have d: "calculateCurrentMass s4 =
           (if t = Gone then \<lparr>mmin = 0, mmax = 0\<rparr>
            else clampToBoundaries (getStateBoundaries \<lparr>baseMass = initialWhSize s, state = t\<rparr>)
                   (applyToMass \<lparr>ship = sh, direction = dir\<rparr> (calculateCurrentMass s) None))"
    using gone st cm s3f by (simp add: disp_def getCurrentWormhole_def)
  have f: "remainingMass s4 = remainingMass s - m" "initialActualMass s4 = initialActualMass s"
    "initialWhSize s4 = initialWhSize s" "initialWhRestriction s4 = initialWhRestriction s"
    "currentMode s4 = currentMode s" "randomEventOccurred s4 = randomEventOccurred s"
    "currentWhState s4 = t"
    using s3f st by (simp_all add: s4_def)
  show ?thesis
    using run [folded s4_def] f d by blast
qed

lemma eventStep_fields:
  assumes "eventStep ea st = (st', oc)"
    and "targetState ((ses st)\<lparr>remainingMass := remainingMass (ses st) - massImpact ea\<rparr>) = t"
  shows "remainingMass (ses st') = remainingMass (ses st) - massImpact ea"
    and "initialActualMass (ses st') = initialActualMass (ses st)"
    and "initialWhSize (ses st') = initialWhSize (ses st)"
    and "currentWhState (ses st') = t"
    and "newState oc = To Gone \<longleftrightarrow> t = Gone"
    and "currentDisplayedMass st' =
           clampToBoundaries
             (getStateBoundaries \<lparr>baseMass = initialWhSize (ses st), state = currentWhState (ses st)\<rparr>)
             (applyToMass
                \<lparr>ship = createEventShip ea,
                 direction = (if ev_direction ea = Outgoing then B else A)\<rparr>
                (currentDisplayedMass st) None)"
proof -
  define s1 where "s1 = (ses st)\<lparr>remainingMass := remainingMass (ses st) - massImpact ea\<rparr>"
  have oc: "oc = determineOutcome s1" and s': "ses st' = updateState oc s1"
    using assms(1) by (auto simp: eventStep_def Let_def s1_def)
  have t: "targetState s1 = t"
    using assms(2) by (simp add: s1_def)
  show "currentWhState (ses st') = t"
    using updateState_determineOutcome [of s1] t by (simp add: s' oc)
  show "newState oc = To Gone \<longleftrightarrow> t = Gone"
    using t by (auto simp: oc determineOutcome_newState)
  show "remainingMass (ses st') = remainingMass (ses st) - massImpact ea"
    and "initialActualMass (ses st') = initialActualMass (ses st)"
    and "initialWhSize (ses st') = initialWhSize (ses st)"
    by (simp_all add: s' updateState_def s1_def split: state_change.splits)
  show "currentDisplayedMass st' =
           clampToBoundaries
             (getStateBoundaries \<lparr>baseMass = initialWhSize (ses st), state = currentWhState (ses st)\<rparr>)
             (applyToMass
                \<lparr>ship = createEventShip ea,
                 direction = (if ev_direction ea = Outgoing then B else A)\<rparr>
                (currentDisplayedMass st) None)"
    using assms(1) by (auto simp: eventStep_def Let_def getCurrentWormhole_def)
qed

lemma processRandomEventAsAction_result:
  assumes "eventLoop (ev_actions ev)
             \<lparr>ses = s\<lparr>randomEventOccurred := True\<rparr>, processedActions = [], totalMassImpact = 0,
              currentDisplayedMass = calculateCurrentMass s, eventStateChange = NoChange\<rparr> = st"
  shows "remainingMass (processRandomEventAsAction ev s) = remainingMass (ses st)"
    and "currentWhState (processRandomEventAsAction ev s) = currentWhState (ses st)"
    and "calculateCurrentMass (processRandomEventAsAction ev s) = currentDisplayedMass st"
proof -
  have c: "calculateCurrentMass (s\<lparr>randomEventOccurred := True\<rparr>) = calculateCurrentMass s"
    by (simp add: calculateCurrentMass_def)
  show "remainingMass (processRandomEventAsAction ev s) = remainingMass (ses st)"
    and "currentWhState (processRandomEventAsAction ev s) = currentWhState (ses st)"
    and "calculateCurrentMass (processRandomEventAsAction ev s) = currentDisplayedMass st"
    using assms eventLoop_frame [of "ev_actions ev" "\<lparr>ses = s\<lparr>randomEventOccurred := True\<rparr>, processedActions = [], totalMassImpact = 0,
              currentDisplayedMass = calculateCurrentMass s, eventStateChange = NoChange\<rparr>"]
    by (simp_all add: processRandomEventAsAction_def Let_def c calculateCurrentMass_def lastFinalMass_snoc)
qed

lemma handleAddAction_exact_no_event:
  assumes "triggered (rolls r) 0 evs = []"
    and "getMass sh = \<lparr>mmin = m, mmax = m\<rparr>"
    and "targetState (s\<lparr>remainingMass := remainingMass s - m\<rparr>) = t"
  shows "remainingMass (handleAddAction sz evs r dir sh s) = remainingMass s - m"
    and "initialActualMass (handleAddAction sz evs r dir sh s) = initialActualMass s"
    and "currentWhState (handleAddAction sz evs r dir sh s) = t"
    and "calculateCurrentMass (handleAddAction sz evs r dir sh s) =
           (if t = Gone then \<lparr>mmin = 0, mmax = 0\<rparr>
            else clampToBoundaries (getStateBoundaries \<lparr>baseMass = initialWhSize s, state = t\<rparr>)
                   (applyToMass \<lparr>ship = sh, direction = dir\<rparr> (calculateCurrentMass s) None))"
  using handleAddAction_exact [OF assms(2,3), of sz evs r dir]
  by (auto simp: processRandomEventsAfterAction_none [OF assms(1)])

lemma start_destab_750:
  "remainingMass (startTracking 750 Destab 3 (1 / 1000) (1 / 1000) (switchToMode GameMode newUI)) = 67"
  "initialActualMass (startTracking 750 Destab 3 (1 / 1000) (1 / 1000) (switchToMode GameMode newUI)) = 675"
  "currentWhState (startTracking 750 Destab 3 (1 / 1000) (1 / 1000) (switchToMode GameMode newUI)) = Destab"
  "initialWhSize (startTracking 750 Destab 3 (1 / 1000) (1 / 1000) (switchToMode GameMode newUI)) = 750"
  "calculateCurrentMass (startTracking 750 Destab 3 (1 / 1000) (1 / 1000) (switchToMode GameMode newUI))
     = \<lparr>mmin = 68, mmax = 413\<rparr>"
  by (simp_all add: startTracking_def switchToMode_def newUI_def initializeGame_def Let_def
      calculateCurrentMass_def getCurrentMassRange_def getMinMass_def getMaxMass_def variance_def
      Math_round_def Math_floor_def)

lemma start_fresh_750:
  "remainingMass (startTracking 750 Fresh 3 (1 / 1000) 0 (switchToMode GameMode newUI)) = 675"
  "initialActualMass (startTracking 750 Fresh 3 (1 / 1000) 0 (switchToMode GameMode newUI)) = 675"
  "currentWhState (startTracking 750 Fresh 3 (1 / 1000) 0 (switchToMode GameMode newUI)) = Stable"
  "initialWhSize (startTracking 750 Fresh 3 (1 / 1000) 0 (switchToMode GameMode newUI)) = 750"
  "calculateCurrentMass (startTracking 750 Fresh 3 (1 / 1000) 0 (switchToMode GameMode newUI))
     = \<lparr>mmin = 675, mmax = 825\<rparr>"
  by (simp_all add: startTracking_def switchToMode_def newUI_def initializeGame_def Let_def
      calculateCurrentMass_def getCurrentMassRange_def getMinMass_def getMaxMass_def variance_def
      Math_round_def Math_floor_def)

lemma base_750:
  "getMinMass \<lparr>baseMass = 750, state = st\<rparr> = 675"
  "getMaxMass \<lparr>baseMass = 750, state = st\<rparr> = 825"
  by (simp_all add: getMinMass_def getMaxMass_def variance_def Math_round_def)

lemma boundaries_750:
  "getStateBoundaries \<lparr>baseMass = 750, state = Critical\<rparr> = \<lparr>mmin = 0, mmax = 83\<rparr>"
  "getStateBoundaries \<lparr>baseMass = 750, state = Stable\<rparr> = \<lparr>mmin = 338, mmax = 825\<rparr>"
  by (simp_all add: getStateBoundaries_def base_750) (simp_all add: Math_round_def)

text \<open>
  Claim C1 says that after every player action that does not collapse the hole the hidden
  remaining mass lies within the displayed interval; \<open>handleAddAction\<close> logs a consistency
  error otherwise. Two sessions on a 750 Gg wormhole in which no random event triggers
  break it. In the first the game starts destabilised with original capacity 675 and 67
  remaining, and a cold rolling hictor (mass 1) goes out: 66 remain, the state becomes
  critical and the player sees 67 to 83. In the second the game starts fresh with capacity
  675, within the displayed 675 to 825, and a custom mass of 337.25 comes in: 337.75
  remain, the state stays stable and the player sees 338 to 487.75.
\<close>

theorem consistency_check_fails:
  assumes "triggered (rolls r) 0 evs = []"
  shows
    "(let s0 = startTracking 750 Destab 3 (1 / 1000) (1 / 1000) (switchToMode GameMode newUI);
          s1 = handleAddAction sz evs r B (Ship ''rhic'' Cold) s0
      in remainingMass s1 = 66 \<and> initialActualMass s1 = 675 \<and> currentWhState s1 = Critical
         \<and> calculateCurrentMass s1 = \<lparr>mmin = 67, mmax = 83\<rparr>
         \<and> 0 < remainingMass s1 \<and> \<not> withinDisplayed s1)
     \<and> (let s0 = startTracking 750 Fresh 3 (1 / 1000) 0 (switchToMode GameMode newUI);
            s1 = handleAddAction sz evs r A (CustomMass (1349 / 4)) s0
        in withinDisplayed s0
           \<and> remainingMass s1 = 1351 / 4 \<and> initialActualMass s1 = 675 \<and> currentWhState s1 = Stable
           \<and> calculateCurrentMass s1 = \<lparr>mmin = 338, mmax = 1951 / 4\<rparr>
           \<and> 0 < remainingMass s1 \<and> \<not> withinDisplayed s1)"
proof -
  define a0 where "a0 = startTracking 750 Destab 3 (1 / 1000) (1 / 1000) (switchToMode GameMode newUI)"
  define a1 where "a1 = handleAddAction sz evs r B (Ship ''rhic'' Cold) a0"
  define b0 where "b0 = startTracking 750 Fresh 3 (1 / 1000) 0 (switchToMode GameMode newUI)"
  define b1 where "b1 = handleAddAction sz evs r A (CustomMass (1349 / 4)) b0"
  have ma: "getMass (Ship ''rhic'' Cold) = \<lparr>mmin = 1, mmax = 1\<rparr>"
    by (simp add: SHIP_TYPES_def)
  have ta: "targetState (a0\<lparr>remainingMass := remainingMass a0 - 1\<rparr>) = Critical"
    using targetState_spec [of "a0\<lparr>remainingMass := remainingMass a0 - 1\<rparr>"]
    by (simp add: a0_def start_destab_750 derived_values)
  note fa = handleAddAction_exact_no_event [OF assms ma ta, of sz B, folded a1_def]
  have a: "remainingMass a1 = 66" "initialActualMass a1 = 675" "currentWhState a1 = Critical"
    "calculateCurrentMass a1 = \<lparr>mmin = 67, mmax = 83\<rparr>"
    using fa
    by (simp_all add: a0_def start_destab_750 boundaries_750 applyToMass_def clampToBoundaries_def
        SHIP_TYPES_def)
  have mb: "getMass (CustomMass (1349 / 4)) = \<lparr>mmin = 1349 / 4, mmax = 1349 / 4\<rparr>"
    by simp
  have tb: "targetState (b0\<lparr>remainingMass := remainingMass b0 - 1349 / 4\<rparr>) = Stable"
    using targetState_spec [of "b0\<lparr>remainingMass := remainingMass b0 - 1349 / 4\<rparr>"]
    by (simp add: b0_def start_fresh_750 derived_values)
  note fb = handleAddAction_exact_no_event [OF assms mb tb, of sz A, folded b1_def]
  have b: "remainingMass b1 = 1351 / 4" "initialActualMass b1 = 675" "currentWhState b1 = Stable"
    "calculateCurrentMass b1 = \<lparr>mmin = 338, mmax = 1951 / 4\<rparr>"
    using fb
    by (simp_all add: b0_def start_fresh_750 boundaries_750 applyToMass_def clampToBoundaries_def)
  have b0w: "withinDisplayed b0"
    by (simp add: withinDisplayed_def b0_def start_fresh_750)
  show ?thesis
    unfolding Let_def a0_def [symmetric] a1_def [symmetric] b0_def [symmetric] b1_def [symmetric]
    using a b b0w by (simp add: withinDisplayed_def)
qed


lemma example_triggered:
  "triggered (\<lambda>i. 0) 0 example_events = example_events"
  "triggered (\<lambda>i. 1 / 2) 0 example_events = []"
  by (simp_all add: example_events_def cruiser_event_def carrier_event_def)

lemma example_valid:
  "validEvents example_sizes 3 example_events = [cruiser_event]"
  by (simp add: validEvents_def example_events_def cruiser_event_def carrier_event_def
      shipFits_def example_sizes_def SHIP_TYPES_def)

text \<open>
  The same check fails on a 3000 Gg wormhole once an event runs, with the example event
  table: \<open>processRandomEventAsAction\<close> clamps the displayed interval of a sub-action to the
  boundaries of the state before that sub-action and derives the new state only afterwards.
  The game starts stable with capacity 2700 and 1401 remaining; a cold rolling hictor goes
  out (1400 remain, the player sees 1350 to 3299) and the cruiser event follows: after its
  two jumps 1320 remain, the state is destabilised and the player sees 1350 to 3273.
\<close>

lemma base_3000:
  "getMinMass \<lparr>baseMass = 3000, state = st\<rparr> = 2700"
  "getMaxMass \<lparr>baseMass = 3000, state = st\<rparr> = 3300"
  by (simp_all add: getMinMass_def getMaxMass_def variance_def Math_round_def)

lemma boundaries_3000:
  "getStateBoundaries \<lparr>baseMass = 3000, state = Stable\<rparr> = \<lparr>mmin = 1350, mmax = 3300\<rparr>"
  "getCurrentMassRange \<lparr>baseMass = 3000, state = Stable\<rparr> = \<lparr>mmin = 1350, mmax = 3300\<rparr>"
  by (simp_all add: getStateBoundaries_def getCurrentMassRange_def base_3000)
    (simp_all add: Math_round_def)

lemma start_stable_3000:
  "remainingMass (startTracking 3000 Stable 3 0 (19 / 500) (switchToMode GameMode newUI)) = 1401"
  "initialActualMass (startTracking 3000 Stable 3 0 (19 / 500) (switchToMode GameMode newUI)) = 2700"
  "currentWhState (startTracking 3000 Stable 3 0 (19 / 500) (switchToMode GameMode newUI)) = Stable"
  "initialWhSize (startTracking 3000 Stable 3 0 (19 / 500) (switchToMode GameMode newUI)) = 3000"
  "initialWhRestriction (startTracking 3000 Stable 3 0 (19 / 500) (switchToMode GameMode newUI)) = 3"
  "currentMode (startTracking 3000 Stable 3 0 (19 / 500) (switchToMode GameMode newUI)) = GameMode"
  "randomEventOccurred (startTracking 3000 Stable 3 0 (19 / 500) (switchToMode GameMode newUI)) = False"
  "calculateCurrentMass (startTracking 3000 Stable 3 0 (19 / 500) (switchToMode GameMode newUI))
     = \<lparr>mmin = 1350, mmax = 3300\<rparr>"
  by (simp_all add: startTracking_def switchToMode_def newUI_def initializeGame_def Let_def
      calculateCurrentMass_def boundaries_3000 variance_def Math_round_def Math_floor_def)

lemma event_after_action_3000:
  "(let s0 = startTracking 3000 Stable 3 0 (19 / 500) (switchToMode GameMode newUI);
        s1 = handleAddAction example_sizes example_events
               \<lparr>coin = 0, rolls = (\<lambda>i. 0), pick = 1 / 2\<rparr> B (Ship ''rhic'' Cold) s0
    in withinDisplayed s0
       \<and> remainingMass s1 = 1320 \<and> currentWhState s1 = Destab
       \<and> calculateCurrentMass s1 = \<lparr>mmin = 1350, mmax = 3273\<rparr>
       \<and> \<not> withinDisplayed s1)"
proof -
  define s0 where "s0 = startTracking 3000 Stable 3 0 (19 / 500) (switchToMode GameMode newUI)"
  define r0 where "r0 = \<lparr>coin = 0, rolls = (\<lambda>i. 0 :: rat), pick = 1 / 2\<rparr>"
  note s0f = start_stable_3000 [folded s0_def]
  have m: "getMass (Ship ''rhic'' Cold) = \<lparr>mmin = 1, mmax = 1\<rparr>"
    by (simp add: SHIP_TYPES_def)
  have t: "targetState (s0\<lparr>remainingMass := remainingMass s0 - 1\<rparr>) = Stable"
    using targetState_spec [of "s0\<lparr>remainingMass := remainingMass s0 - 1\<rparr>"]
    by (simp add: s0f derived_values)
  obtain s4 where run: "handleAddAction example_sizes example_events r0 B (Ship ''rhic'' Cold) s0
        = processRandomEventsAfterAction example_sizes example_events r0 s4"
    and s4: "remainingMass s4 = 1400" "initialActualMass s4 = 2700" "initialWhSize s4 = 3000"
      "initialWhRestriction s4 = 3" "currentMode s4 = GameMode" "randomEventOccurred s4 = False"
      "currentWhState s4 = Stable" "calculateCurrentMass s4 = \<lparr>mmin = 1350, mmax = 3299\<rparr>"
    using handleAddAction_exact [OF m t, of example_sizes example_events r0 B]
    by (auto simp: s0f boundaries_3000 applyToMass_def clampToBoundaries_def SHIP_TYPES_def)
  have trig: "checkForRandomEvents example_events (rolls r0) s4 = example_events"
    by (simp add: checkForRandomEvents_def s4 r0_def example_triggered)
  have p: "0 \<le> pick r0" "pick r0 < 1"
    by (simp_all add: r0_def)
  have ev: "processRandomEventsAfterAction example_sizes example_events r0 s4
      = processRandomEventAsAction cruiser_event s4"
    unfolding processRandomEventsAfterAction_eq [OF p] trig s4 example_valid
    by (simp add: r0_def)
  define ea1 where "ea1 = \<lparr>shipType = ''cruiser'', ev_direction = Outgoing, massImpact = 40\<rparr>"
  define ea2 where "ea2 = \<lparr>shipType = ''cruiser'', ev_direction = Incoming, massImpact = 40\<rparr>"
  have acts: "ev_actions cruiser_event = [ea1, ea2]"
    by (simp add: cruiser_event_def ea1_def ea2_def)
  have ship: "createEventShip ea1 = EventShip ''cruiser'' 13 63"
    "createEventShip ea2 = EventShip ''cruiser'' 13 63"
    by (simp_all add: createEventShip_def ea1_def ea2_def SHIP_TYPES_def)
  define st0 where "st0 = \<lparr>ses = s4\<lparr>randomEventOccurred := True\<rparr>, processedActions = [],
      totalMassImpact = 0, currentDisplayedMass = calculateCurrentMass s4, eventStateChange = NoChange\<rparr>"
  obtain st1 oc1 where e1: "eventStep ea1 st0 = (st1, oc1)"
    by (cases "eventStep ea1 st0")
  have t1: "targetState ((ses st0)\<lparr>remainingMass := remainingMass (ses st0) - massImpact ea1\<rparr>) = Stable"
    using targetState_spec [of "(ses st0)\<lparr>remainingMass := remainingMass (ses st0) - massImpact ea1\<rparr>"]
    by (simp add: st0_def s4 ea1_def derived_values)
  note f1 = eventStep_fields [OF e1 t1]
  have st1: "remainingMass (ses st1) = 1360" "initialActualMass (ses st1) = 2700"
    "initialWhSize (ses st1) = 3000" "currentWhState (ses st1) = Stable"
    "newState oc1 \<noteq> To Gone" "currentDisplayedMass st1 = \<lparr>mmin = 1350, mmax = 3286\<rparr>"
    using f1
    by (simp_all add: st0_def s4 ea1_def [symmetric] ship)
      (simp_all add: ea1_def boundaries_3000 applyToMass_def clampToBoundaries_def)
  obtain st2 oc2 where e2: "eventStep ea2 st1 = (st2, oc2)"
    by (cases "eventStep ea2 st1")
  have t2: "targetState ((ses st1)\<lparr>remainingMass := remainingMass (ses st1) - massImpact ea2\<rparr>) = Destab"
    using targetState_spec [of "(ses st1)\<lparr>remainingMass := remainingMass (ses st1) - massImpact ea2\<rparr>"]
    by (simp add: st1 ea2_def derived_values)
  note f2 = eventStep_fields [OF e2 t2]
  have st2: "remainingMass (ses st2) = 1320" "currentWhState (ses st2) = Destab"
    "newState oc2 \<noteq> To Gone" "currentDisplayedMass st2 = \<lparr>mmin = 1350, mmax = 3273\<rparr>"
    using f2
    by (simp_all add: st1 ship)
      (simp_all add: ea2_def boundaries_3000 applyToMass_def clampToBoundaries_def)
  have loop: "eventLoop (ev_actions cruiser_event) st0 = st2"
    using e1 e2 st1 st2 by (simp add: acts st0_def s4)
  note res = processRandomEventAsAction_result [OF loop [unfolded st0_def]]
  have fin: "remainingMass (processRandomEventAsAction cruiser_event s4) = 1320"
    "currentWhState (processRandomEventAsAction cruiser_event s4) = Destab"
    "calculateCurrentMass (processRandomEventAsAction cruiser_event s4) = \<lparr>mmin = 1350, mmax = 3273\<rparr>"
    using res st2 by simp_all
  have w0: "withinDisplayed s0"
    by (simp add: withinDisplayed_def s0f)
  show ?thesis
    unfolding Let_def s0_def [symmetric] r0_def [symmetric] run ev
    using fin w0 by (simp add: withinDisplayed_def)
qed

section \<open>Concrete instances\<close>

theorem determineOutcome_derives_state_witness:
  "initialActualMass (newUI\<lparr>initialActualMass := 3000, remainingMass := 1400, currentWhState := Stable\<rparr>) \<noteq> 0
   \<and> spec_derivedState 1400 3000 = Destab
   \<and> newState (determineOutcome (newUI\<lparr>initialActualMass := 3000, remainingMass := 1400, currentWhState := Stable\<rparr>))
        = To Destab
   \<and> currentWhState
        (updateState
           (determineOutcome (newUI\<lparr>initialActualMass := 3000, remainingMass := 1400, currentWhState := Stable\<rparr>))
           (newUI\<lparr>initialActualMass := 3000, remainingMass := 1400, currentWhState := Stable\<rparr>)) = Destab"
proof -
  have d: "spec_derivedState 1400 3000 = Destab"
    by (rule derived_values)
  have h: "initialActualMass (newUI\<lparr>initialActualMass := 3000, remainingMass := 1400, currentWhState := Stable\<rparr>) \<noteq> 0"
    by simp
  show ?thesis
    using determineOutcome_derives_state [OF h] d by simp
qed

theorem one_event_per_session_witness:
  "eventCount (play example_sizes example_events
      [(\<lparr>coin = 0, rolls = (\<lambda>i. 0), pick = 1 / 2\<rparr>, B, Ship ''bs'' Hot)]
      (startTracking 3000 Fresh 3 0 0 (switchToMode GameMode (resetAll newUI)))) \<le> 1
   \<and> randomEventOccurred (processRandomEventAsAction cruiser_event game_3000)
   \<and> checkForRandomEvents example_events (\<lambda>i. 0) (processRandomEventAsAction cruiser_event game_3000) = []
   \<and> eventCount (play example_sizes example_events
        [(\<lparr>coin = 0, rolls = (\<lambda>i. 0), pick = 1 / 2\<rparr>, B, Ship ''bs'' Hot)]
        (processRandomEventAsAction cruiser_event game_3000))
      = eventCount (processRandomEventAsAction cruiser_event game_3000)"
proof -
  have h: "randomEventOccurred (processRandomEventAsAction cruiser_event game_3000)"
    by (rule processRandomEventAsAction_frame(2))
  show ?thesis
    using h
      one_event_per_session [of example_sizes example_events
        "[(\<lparr>coin = 0, rolls = (\<lambda>i. 0), pick = 1 / 2\<rparr>, B, Ship ''bs'' Hot)]"
        3000 Fresh 3 0 0 newUI cruiser_event game_3000
        "processRandomEventAsAction cruiser_event game_3000" "\<lambda>i. 0"]
    by blast
qed

theorem event_leaves_far_side_witness:
  "shipsOnFarSide (processRandomEventAsAction cruiser_event game_3000) = shipsOnFarSide game_3000
   \<and> shipsOnFarSide_e (last (committedActions (processRandomEventAsAction cruiser_event game_3000)))
       = shipsOnFarSide game_3000
   \<and> shipsOnFarSide
        (processRandomEventsAfterAction example_sizes example_events
           \<lparr>coin = 0, rolls = (\<lambda>i. 0), pick = 1 / 2\<rparr> game_3000) = shipsOnFarSide game_3000
   \<and> shipsOnFarSide
        (handleAddAction example_sizes example_events \<lparr>coin = 0, rolls = (\<lambda>i. 0), pick = 1 / 2\<rparr>
           B (Ship ''bs'' Hot) game_3000)
       = trackFarSide B (Ship ''bs'' Hot) (shipsOnFarSide game_3000)
   \<and> trackFarSide B (Ship ''bs'' Hot) (shipsOnFarSide game_3000) ''bs'' = Some 1
   \<and> trackFarSide A (Ship ''bs'' Hot) (trackFarSide B (Ship ''bs'' Hot) (shipsOnFarSide game_3000)) ''bs''
       = None"
proof -
  have far: "shipsOnFarSide game_3000 ''bs'' = Some 0"
    by (simp add: game_3000_def startTracking_def switchToMode_def newUI_def initializeGame_def
        Let_def SHIP_TYPES_def)
  note inst = event_leaves_far_side [of cruiser_event game_3000 example_sizes example_events
      "\<lparr>coin = 0, rolls = (\<lambda>i. 0), pick = 1 / 2\<rparr>" B "Ship ''bs'' Hot"]
  show ?thesis
    using inst [of "CHR ''b''" "''s''" Hot "shipsOnFarSide game_3000"]
      inst [of "CHR ''b''" "''s''" Hot "trackFarSide B (Ship ''bs'' Hot) (shipsOnFarSide game_3000)"]
      far
    by simp
qed


theorem applyStaging_commit_witness:
  "stagedActions (stage A (Ship ''bs'' Hot) (startTracking 3000 Fresh 3 0 0 newUI)) \<noteq> []
   \<and> (let s = stage A (Ship ''bs'' Hot) (startTracking 3000 Fresh 3 0 0 newUI);
           declared = (case To Destab of NoChange \<Rightarrow> currentWhState s | To st \<Rightarrow> st);
           s' = applyStaging (To Destab) s;
           e = last (committedActions s')
       in committedActions s' = committedActions s @ [e]
          \<and> actions e = stagedActions s
          \<and> finalMass e = Some (spec_commitInterval s declared)
          \<and> calculateCurrentMass s' = spec_commitInterval s declared
          \<and> mmin (spec_commitInterval s declared) \<le> mmax (spec_commitInterval s declared)
          \<and> passedMass e = Some (sum_list (map spec_passedMass (stagedActions s)))
          \<and> currentWhState s' = declared
          \<and> stagedActions s' = [])"
proof -
  have h: "stagedActions (stage A (Ship ''bs'' Hot) (startTracking 3000 Fresh 3 0 0 newUI)) \<noteq> []"
    by (simp add: stage_def)
  show ?thesis
    unfolding Let_def
    by (rule conjI [OF h applyStaging_commit [OF h, of "To Destab", unfolded Let_def]])
qed

theorem consistency_check_fails_witness:
  "triggered (rolls \<lparr>coin = 0, rolls = (\<lambda>i. 1 / 2), pick = 0\<rparr>) 0 example_events = []
   \<and> (let s0 = startTracking 750 Destab 3 (1 / 1000) (1 / 1000) (switchToMode GameMode newUI);
           s1 = handleAddAction example_sizes example_events
                  \<lparr>coin = 0, rolls = (\<lambda>i. 1 / 2), pick = 0\<rparr> B (Ship ''rhic'' Cold) s0
       in remainingMass s1 = 66 \<and> initialActualMass s1 = 675 \<and> currentWhState s1 = Critical
          \<and> calculateCurrentMass s1 = \<lparr>mmin = 67, mmax = 83\<rparr>
          \<and> 0 < remainingMass s1 \<and> \<not> withinDisplayed s1)
   \<and> (let s0 = startTracking 750 Fresh 3 (1 / 1000) 0 (switchToMode GameMode newUI);
           s1 = handleAddAction example_sizes example_events
                  \<lparr>coin = 0, rolls = (\<lambda>i. 1 / 2), pick = 0\<rparr> A (CustomMass (1349 / 4)) s0
       in withinDisplayed s0
          \<and> remainingMass s1 = 1351 / 4 \<and> initialActualMass s1 = 675 \<and> currentWhState s1 = Stable
          \<and> calculateCurrentMass s1 = \<lparr>mmin = 338, mmax = 1951 / 4\<rparr>
          \<and> 0 < remainingMass s1 \<and> \<not> withinDisplayed s1)"
proof -
  have h: "triggered (rolls \<lparr>coin = 0, rolls = (\<lambda>i. 1 / 2), pick = 0\<rparr>) 0 example_events = []"
    by (simp add: example_triggered)
  show ?thesis
    by (rule conjI [OF h consistency_check_fails [OF h, of example_sizes]])
qed

end
